theory Spec2Isabelle
  imports Complex_Main
begin

section \<open>Text, exceptions and the string primitives the code relies on\<close>

text \<open>
  A Python \<^verbatim>\<open>str\<close> is a sequence of Unicode code points, so text is modelled as a list
  of code points. Hangul syllables (U+AC00 to U+D7A3) do not fit in an 8-bit \<open>char\<close>;
  ASCII literals of the source are embedded with \<open>u\<close>.
\<close>

type_synonym ustring = "nat list"

definition u :: "string \<Rightarrow> ustring" where
  "u s = map of_char s"

text \<open>An exception value carries its message (\<^verbatim>\<open>str(e)\<close>); \<open>Inl\<close> is a raise.\<close>

datatype exn = Exn ustring

fun str_exn :: "exn \<Rightarrow> ustring" where
  "str_exn (Exn m) = m"

text \<open>
  \<^verbatim>\<open>str.isspace\<close> for one code point: the set CPython uses for \<^verbatim>\<open>strip()\<close> and
  \<^verbatim>\<open>split()\<close> without arguments.
\<close>

definition isspace :: "nat \<Rightarrow> bool" where
  "isspace c \<longleftrightarrow>
     (9 \<le> c \<and> c \<le> 13) \<or> (28 \<le> c \<and> c \<le> 32) \<or> c = 133 \<or> c = 160 \<or> c = 5760 \<or>
     (8192 \<le> c \<and> c \<le> 8202) \<or> c = 8232 \<or> c = 8233 \<or> c = 8239 \<or> c = 8287 \<or>
     c = 12288"

definition strip :: "ustring \<Rightarrow> ustring" where
  "strip s = rev (dropWhile isspace (rev (dropWhile isspace s)))"

text \<open>\<^verbatim>\<open>not text or not text.strip()\<close>\<close>

definition blank :: "ustring \<Rightarrow> bool" where
  "blank text \<longleftrightarrow> text = [] \<or> strip text = []"

text \<open>
  \<^verbatim>\<open>text.split()\<close>: the maximal runs of non-whitespace code points, in order. \<open>cur\<close> is
  the run being read.
\<close>

fun split_acc :: "ustring \<Rightarrow> ustring \<Rightarrow> ustring list" where
  "split_acc cur [] = (if cur = [] then [] else [cur])"
| "split_acc cur (c # cs) =
     (if isspace c then (if cur = [] then split_acc [] cs else cur # split_acc [] cs)
      else split_acc (cur @ [c]) cs)"

definition split :: "ustring \<Rightarrow> ustring list" where
  "split s = split_acc [] s"

text \<open>
  \<^verbatim>\<open>s.replace(old, new)\<close> for a non-empty \<open>old\<close>: non-overlapping occurrences, scanned
  from the left.
\<close>

function replace :: "ustring \<Rightarrow> ustring \<Rightarrow> ustring \<Rightarrow> ustring" where
  "replace old new [] = []"
| "replace old new (c # cs) =
     (if old \<noteq> [] \<and> take (length old) (c # cs) = old
      then new @ replace old new (drop (length old) (c # cs))
      else c # replace old new cs)"
  by pat_completeness auto
termination
  by (relation "measure (\<lambda>(old, new, s). length s)") auto

text \<open>
  \<^verbatim>\<open>str.lower\<close> is the Unicode lower-casing of the Python runtime; the functions below take
  it as a parameter. \<open>lower_basic\<close> agrees with it on every text made of ASCII code points,
  Hangul syllables and U+0130 (the one code point whose lower case is two code points,
  U+0069 U+0307), and is the instance used at concrete inputs.
\<close>

definition lower_cp :: "nat \<Rightarrow> ustring" where
  "lower_cp c =
     (if 65 \<le> c \<and> c \<le> 90 then [c + 32] else if c = 304 then [105, 775] else [c])"

definition lower_basic :: "ustring \<Rightarrow> ustring" where
  "lower_basic s = concat (map lower_cp s)"

section \<open>Language detection (models/language\_detector.py)\<close>

text \<open>
  \<open>model\<close> is the loaded FastText model, \<open>None\<close> when the library or the model file is
  missing; applied to a text it gives the first label \<^verbatim>\<open>predictions[0][0]\<close> or raises.
\<close>

record detector =
  model :: "(ustring \<Rightarrow> exn + ustring) option"

definition supported_languages :: "ustring list" where
  "supported_languages = [u ''en'', u ''tl'', u ''ko'']"

definition lang_mapping :: "ustring \<Rightarrow> ustring" where
  "lang_mapping lang_code =
     (if lang_code = u ''fil'' then u ''tl''
      else if lang_code = u ''kor'' then u ''ko''
      else if lang_code = u ''eng'' then u ''en''
      else lang_code)"

definition filipino_words :: "ustring list" where
  "filipino_words =
     [u ''ang'', u ''ng'', u ''mga'', u ''sa'', u ''at'', u ''ay'', u ''ko'', u ''mo'', u ''po'',
      u ''ito'']"

text \<open>\<^verbatim>\<open>sum(1 for c in text if U+AC00 <= c <= U+D7A3)\<close>\<close>

definition korean_chars :: "ustring \<Rightarrow> nat" where
  "korean_chars text = sum_list (map (\<lambda>c. 1) (filter (\<lambda>c. 44032 \<le> c \<and> c \<le> 55203) text))"

text \<open>\<^verbatim>\<open>sum(word in text.split() for word in filipino_words)\<close>\<close>

definition filipino_count :: "ustring \<Rightarrow> nat" where
  "filipino_count text =
     sum_list (map (\<lambda>word. if word \<in> set (split text) then 1 else 0) filipino_words)"

text \<open>
  The fallback of \<^verbatim>\<open>detect\<close>, on the lower-cased text. The source compares the float
  \<^verbatim>\<open>korean_chars / text_len\<close> with the float literal \<^verbatim>\<open>0.3\<close>. Python's division of two
  integers is correctly rounded and rounding is monotone, so a quotient of at most 3/10
  rounds to at most the double \<^verbatim>\<open>0.3\<close>; a quotient above 3/10 exceeds it by at least
  \<open>1 / (10 * text_len)\<close>, which is more than the rounding error of a double near 0.3 for
  every text shorter than \<open>10 ^ 15\<close> code points. The comparison is therefore the exact
  one on rationals.
\<close>

definition detect_fallback :: "ustring \<Rightarrow> ustring" where
  "detect_fallback text =
     (let text_len = max 1 (length text);
          korean_percentage = (of_nat (korean_chars text) :: rat) / of_nat text_len
      in if korean_percentage > 3 / 10 then u ''ko''
         else if filipino_count text \<ge> 2 then u ''tl''
         else u ''en'')"

text \<open>
  The statistical tier of \<^verbatim>\<open>detect\<close>: \<open>Some code\<close> when FastText answered (the code
  returned), \<open>None\<close> when there is no model or the prediction raised, which falls through
  to the fallback.
\<close>

definition detect_fasttext :: "detector \<Rightarrow> ustring \<Rightarrow> ustring option" where
  "detect_fasttext self text =
     (case model self of
        None \<Rightarrow> None
      | Some predict \<Rightarrow>
          (case predict (replace [10] [32] text) of
             Inl e \<Rightarrow> None
           | Inr label \<Rightarrow>
               (let lang_code = lang_mapping (replace (u ''__label__'') [] label)
                in if lang_code \<notin> set supported_languages then Some (u ''en'')
                   else Some lang_code)))"

definition detect :: "(ustring \<Rightarrow> ustring) \<Rightarrow> detector \<Rightarrow> ustring \<Rightarrow> ustring" where
  "detect lower self text =
     (if blank text then u ''en''
      else case detect_fasttext self text of
             Some lang_code \<Rightarrow> lang_code
           | None \<Rightarrow> detect_fallback (lower text))"

section \<open>Translation routing (models/translation.py)\<close>

text \<open>
  An offline engine function of \<^verbatim>\<open>translation_pairs\<close> translates a text or raises.
  \<open>argos_available\<close> is the flag computed at construction; the pairs are filled only
  when it is set.
\<close>

record translator =
  argos_available :: bool
  translation_pairs :: "ustring \<rightharpoonup> (ustring \<Rightarrow> exn + ustring)"

text \<open>
  What a call of \<^verbatim>\<open>translate\<close> meets outside the translator object: the runtime's
  \<^verbatim>\<open>str.lower\<close>, the outcome of constructing a \<^verbatim>\<open>LanguageDetector()\<close> (the detector,
  or the exception of its constructor), and the online service behind
  \<^verbatim>\<open>_translate_online(text, from_lang, to_lang)\<close>, which returns a text or raises.
\<close>

record world =
  str_lower :: "ustring \<Rightarrow> ustring"
  LanguageDetector :: "exn + detector"
  translate_online :: "ustring \<Rightarrow> ustring \<Rightarrow> ustring \<Rightarrow> exn + ustring"

text \<open>The engine calls a request makes, in order.\<close>

datatype engine_call =
  OnlineCall ustring ustring ustring
| OfflineCall ustring ustring

text \<open>\<^verbatim>\<open>f"{src}-{tgt}"\<close> and \<^verbatim>\<open>f"[Translation not available for {src} to {tgt}]"\<close>\<close>

definition pair_key :: "ustring \<Rightarrow> ustring \<Rightarrow> ustring" where
  "pair_key src tgt = src @ u ''-'' @ tgt"

definition not_available :: "ustring \<Rightarrow> ustring \<Rightarrow> ustring" where
  "not_available src tgt =
     u ''[Translation not available for '' @ src @ u '' to '' @ tgt @ u '']''"

definition get_intermediate_translations :: "ustring \<Rightarrow> ustring \<Rightarrow> (ustring \<times> ustring) list" where
  "get_intermediate_translations from_code to_code =
     (if from_code \<notin> set [u ''en''] \<and> to_code \<notin> set [u ''en'']
      then [(from_code, u ''en''), (u ''en'', to_code)]
      else [(from_code, to_code)])"

text \<open>
  The detection step of \<^verbatim>\<open>translate\<close>: the value of \<^verbatim>\<open>from_lang\<close> after it. The
  \<^verbatim>\<open>except\<close> branch defaults to English.
\<close>

definition resolve_from :: "world \<Rightarrow> ustring \<Rightarrow> ustring \<Rightarrow> ustring \<Rightarrow> ustring" where
  "resolve_from w text from_lang to_lang =
     (if from_lang = u ''auto'' \<or> from_lang = to_lang then
        (case LanguageDetector w of
           Inl e \<Rightarrow> u ''en''
         | Inr detector \<Rightarrow> detect (str_lower w) detector text)
      else from_lang)"

text \<open>
  The online attempt: \<open>Some translated\<close> when the service returned a non-empty text
  (\<^verbatim>\<open>if translated: return translated\<close>); \<open>None\<close> when it was not requested, raised
  (caught and logged) or returned an empty text.
\<close>

definition try_online ::
  "world \<Rightarrow> ustring \<Rightarrow> ustring \<Rightarrow> ustring \<Rightarrow> bool \<Rightarrow> engine_call list \<times> ustring option" where
  "try_online w text from_lang to_lang online =
     (if online then
        (case translate_online w text from_lang to_lang of
           Inl e \<Rightarrow> ([OnlineCall text from_lang to_lang], None)
         | Inr translated \<Rightarrow>
             ([OnlineCall text from_lang to_lang],
              if translated \<noteq> [] then Some translated else None))
      else ([], None))"

text \<open>
  The loop over the hops of the path. \<open>Inr r\<close> is a \<^verbatim>\<open>return r\<close> (the result after the
  last hop, or the message for the first hop that is not registered); \<open>Inl e\<close> is an
  exception raised by an engine. \<open>calls\<close> are the engine calls made so far.
\<close>

fun run_hops ::
  "(ustring \<rightharpoonup> (ustring \<Rightarrow> exn + ustring)) \<Rightarrow> (ustring \<times> ustring) list \<Rightarrow> ustring \<Rightarrow>
     engine_call list \<Rightarrow> engine_call list \<times> (exn + ustring)" where
  "run_hops pairs [] result calls = (calls, Inr result)"
| "run_hops pairs ((src, tgt) # rest) result calls =
     (case pairs (pair_key src tgt) of
        Some f \<Rightarrow>
          (case f result of
             Inl e \<Rightarrow> (calls @ [OfflineCall (pair_key src tgt) result], Inl e)
           | Inr r \<Rightarrow> run_hops pairs rest r (calls @ [OfflineCall (pair_key src tgt) result]))
      | None \<Rightarrow> (calls, Inr (not_available src tgt)))"

text \<open>
  The body of the offline \<^verbatim>\<open>try\<close> block: \<open>Inr (Some r)\<close> returns \<open>r\<close>, \<open>Inr None\<close>
  leaves the block without returning (an empty path), \<open>Inl e\<close> raises.
\<close>

definition offline_block ::
  "translator \<Rightarrow> ustring \<Rightarrow> ustring \<Rightarrow> ustring \<Rightarrow> engine_call list \<Rightarrow>
     engine_call list \<times> (exn + ustring option)" where
  "offline_block self text from_lang to_lang calls =
     (case translation_pairs self (pair_key from_lang to_lang) of
        Some f \<Rightarrow>
          (calls @ [OfflineCall (pair_key from_lang to_lang) text], map_sum id Some (f text))
      | None \<Rightarrow>
          (let translations = get_intermediate_translations from_lang to_lang
           in if translations \<noteq> []
              then (case run_hops (translation_pairs self) translations text calls of
                      (calls', r) \<Rightarrow> (calls', map_sum id Some r))
              else (calls, Inr None)))"

text \<open>
  \<^verbatim>\<open>translate(text, from_lang, to_lang, online)\<close>: the engine calls made and the outcome,
  \<open>Inr\<close> a returned text and \<open>Inl\<close> an exception reaching the caller.
\<close>

definition translate ::
  "translator \<Rightarrow> world \<Rightarrow> ustring \<Rightarrow> ustring \<Rightarrow> ustring \<Rightarrow> bool \<Rightarrow>
     engine_call list \<times> (exn + ustring)" where
  "translate self w text from_lang to_lang online =
     (if blank text then ([], Inr [])
      else
        let from_lang = resolve_from w text from_lang to_lang
        in if from_lang = to_lang then ([], Inr text)
           else
             (case try_online w text from_lang to_lang online of
                (calls, Some translated) \<Rightarrow> (calls, Inr translated)
              | (calls, None) \<Rightarrow>
                  (if argos_available self then
                     (case offline_block self text from_lang to_lang calls of
                        (calls', Inr (Some r)) \<Rightarrow> (calls', Inr r)
                      | (calls', Inr None) \<Rightarrow> (calls', Inr (not_available from_lang to_lang))
                      | (calls', Inl e) \<Rightarrow> (calls', Inr (not_available from_lang to_lang)))
                   else (calls, Inr (not_available from_lang to_lang)))))"

text \<open>
  A request on which every translation method has failed, so that \<^verbatim>\<open>translate\<close> reaches
  its last line: the online service was not asked or gave nothing, and the offline engine
  is absent, raised, or left its block without returning. \<open>from_lang\<close> is the source
  language after the detection step.
\<close>

definition all_methods_failed ::
  "translator \<Rightarrow> world \<Rightarrow> ustring \<Rightarrow> ustring \<Rightarrow> ustring \<Rightarrow> bool \<Rightarrow> bool" where
  "all_methods_failed self w text from_lang to_lang online \<longleftrightarrow>
     \<not> blank text \<and> from_lang \<noteq> to_lang \<and>
     snd (try_online w text from_lang to_lang online) = None \<and>
     (if argos_available self
      then (case snd (offline_block self text from_lang to_lang
                        (fst (try_online w text from_lang to_lang online))) of
              Inl e \<Rightarrow> True
            | Inr None \<Rightarrow> True
            | Inr (Some r) \<Rightarrow> False)
      else True)"

text \<open>
  Concrete collaborators for the worked inputs: a world with no FastText model and no
  network, an engine that prefixes its input with a tag, and an engine that raises.
\<close>

definition sample_world :: world where
  "sample_world =
     \<lparr>str_lower = lower_basic,
      LanguageDetector = Inr \<lparr>model = None\<rparr>,
      translate_online = (\<lambda>text from_lang to_lang. Inl (Exn (u ''network unreachable'')))\<rparr>"

definition tag_engine :: "ustring \<Rightarrow> ustring \<Rightarrow> exn + ustring" where
  "tag_engine tag text = Inr (tag @ text)"

definition failing_engine :: "ustring \<Rightarrow> exn + ustring" where
  "failing_engine text = Inl (Exn (u ''engine failure''))"

definition hangul :: "nat \<Rightarrow> bool" where
  "hangul c \<longleftrightarrow> 44032 \<le> c \<and> c \<le> 55203"

section \<open>Capture sessions (services/speech\_recognition.py)\<close>

text \<open>
  A loaded Vosk model is identified by its path; \<^verbatim>\<open>KaldiRecognizer(model, rate)\<close> builds a
  recognizer or raises. \<^verbatim>\<open>models\<close> is a dictionary in insertion order, which
  \<^verbatim>\<open>next(iter(models), None)\<close> depends on.
\<close>

type_synonym vosk_model = ustring

record recognizer =
  rec_model :: vosk_model
  rec_rate :: nat

type_synonym kaldi = "vosk_model \<Rightarrow> nat \<Rightarrow> exn + recognizer"

text \<open>
  A callback is called with \<^verbatim>\<open>(text, language, final)\<close> and returns or raises (\<open>Some e\<close>);
  a \<open>cb_event\<close> is one invocation.
\<close>

type_synonym callback = "ustring \<Rightarrow> ustring \<Rightarrow> bool \<Rightarrow> exn option"


text \<open>
  A capture thread is \<open>Capturing\<close> until its \<^verbatim>\<open>finally\<close> clause has run
  \<^verbatim>\<open>is_recording.clear()\<close>, and \<open>Closing\<close> from then on, while it stops and closes its stream,
  until it is over.
\<close>

datatype phase = Capturing | Closing

record capture_thread =
  th_callback :: "callback option"
  th_language :: ustring
  th_phase :: phase

text \<open>The module's globals, and the capture threads that are running.\<close>

record service =
  stop_recording :: bool
  is_recording :: bool
  current_recognizer :: "recognizer option"
  current_model :: "vosk_model option"
  current_language :: "ustring option"
  models :: "(ustring \<times> vosk_model) list"
  threads :: "capture_thread list"

definition RATE :: nat where
  "RATE = 16000"



definition initial_service :: "(ustring \<times> vosk_model) list \<Rightarrow> service" where
  "initial_service ms =
     \<lparr>stop_recording = False, is_recording = False, current_recognizer = None,
      current_model = None, current_language = None, models = ms, threads = []\<rparr>"

definition create_recognizer ::
  "kaldi \<Rightarrow> service \<Rightarrow> ustring \<Rightarrow> service \<times> (exn + recognizer option)" where
  "create_recognizer KaldiRecognizer s language =
     (let chosen =
        (if language \<notin> fst ` set (models s) then
           (if u ''en'' \<in> fst ` set (models s) then Some (u ''en'')
            else (case models s of [] \<Rightarrow> None | (k, m) # rest \<Rightarrow> Some k))
         else Some language)
      in case chosen of
           None \<Rightarrow> (s, Inr None)
         | Some l \<Rightarrow>
             (case map_of (models s) l of
                None \<Rightarrow> (s, Inl (Exn (u ''KeyError'')))
              | Some m \<Rightarrow>
                  (let s1 = s\<lparr>current_model := Some m\<rparr>
                   in case KaldiRecognizer m RATE of
                        Inl e \<Rightarrow> (s1, Inl e)
                      | Inr r \<Rightarrow>
                          (s1\<lparr>current_recognizer := Some r, current_language := Some l\<rparr>,
                           Inr (Some r)))))"

text \<open>\<^verbatim>\<open>is_recording.set()\<close> and the start of the thread, the last steps of \<^verbatim>\<open>record_audio\<close>.\<close>

definition start_thread :: "service \<Rightarrow> callback option \<Rightarrow> ustring \<Rightarrow> service \<times> (exn + bool)" where
  "start_thread s callback language =
     (s\<lparr>is_recording := True,
        threads := threads s @
          [\<lparr>th_callback = callback, th_language = language, th_phase = Capturing\<rparr>]\<rparr>,
      Inr True)"

definition record_audio ::
  "kaldi \<Rightarrow> service \<Rightarrow> callback option \<Rightarrow> ustring \<Rightarrow> service \<times> (exn + bool)" where
  "record_audio KaldiRecognizer s callback language =
     (if is_recording s then (s, Inr False)
      else
        let s1 = s\<lparr>stop_recording := False\<rparr>
        in if current_language s1 \<noteq> Some language \<or> current_recognizer s1 = None then
             (case create_recognizer KaldiRecognizer s1 language of
                (s2, Inl e) \<Rightarrow> (s2, Inl e)
              | (s2, Inr None) \<Rightarrow> (s2\<lparr>current_recognizer := None\<rparr>, Inr False)
              | (s2, Inr (Some r)) \<Rightarrow>
                  start_thread (s2\<lparr>current_recognizer := Some r\<rparr>) callback language)
           else start_thread s1 callback language)"

definition stop_recording_audio :: "service \<Rightarrow> service \<times> bool" where
  "stop_recording_audio s =
     (if is_recording s then (s\<lparr>stop_recording := True\<rparr>, True) else (s, False))"

text \<open>
  The \<^verbatim>\<open>finally\<close> clause of capture thread \<open>i\<close>, in two steps as the code has them:
  \<^verbatim>\<open>is_recording.clear()\<close> comes first, and the thread is over only after
  \<^verbatim>\<open>stream.stop_stream()\<close> and \<^verbatim>\<open>stream.close()\<close>. Between the two steps the thread still
  runs while the flag is clear.
\<close>

definition finally_clear :: "nat \<Rightarrow> service \<Rightarrow> service" where
  "finally_clear i s =
     s\<lparr>is_recording := False,
       threads := (threads s)[i := (threads s ! i)\<lparr>th_phase := Closing\<rparr>]\<rparr>"

definition thread_end :: "nat \<Rightarrow> service \<Rightarrow> service" where
  "thread_end i s = s\<lparr>threads := take i (threads s) @ drop (Suc i) (threads s)\<rparr>"

text \<open>
  The states the module reaches from its start, by calls of \<^verbatim>\<open>record_audio\<close> and
  \<^verbatim>\<open>stop_recording_audio\<close>, by a capture thread clearing the flag in its \<^verbatim>\<open>finally\<close>
  clause, and by a thread that has done so coming to its end. Calls and thread steps
  interleave in any order.
\<close>

inductive reachable :: "kaldi \<Rightarrow> service \<Rightarrow> bool" for K :: kaldi where
  init: "reachable K (initial_service ms)"
| start: "reachable K s \<Longrightarrow> reachable K (fst (record_audio K s callback language))"
| stop: "reachable K s \<Longrightarrow> reachable K (fst (stop_recording_audio s))"
| clear: "reachable K s \<Longrightarrow> i < length (threads s) \<Longrightarrow>
     th_phase (threads s ! i) = Capturing \<Longrightarrow> reachable K (finally_clear i s)"
| exit: "reachable K s \<Longrightarrow> i < length (threads s) \<Longrightarrow>
     th_phase (threads s ! i) = Closing \<Longrightarrow> reachable K (thread_end i s)"




















text \<open>Concrete collaborators of the capture service for the worked inputs.\<close>

definition sample_kaldi :: kaldi where
  "sample_kaldi m rate = Inr \<lparr>rec_model = m, rec_rate = rate\<rparr>"

definition sample_callback :: callback where
  "sample_callback text language final = None"

definition capturing :: service where
  "capturing =
     \<lparr>stop_recording = False, is_recording = True,
      current_recognizer = Some \<lparr>rec_model = u ''vosk-model-small-en-us'', rec_rate = 16000\<rparr>,
      current_model = Some (u ''vosk-model-small-en-us''),
      current_language = Some (u ''en''),
      models = [(u ''en'', u ''vosk-model-small-en-us'')],
      threads = [\<lparr>th_callback = Some sample_callback, th_language = u ''en'',
                  th_phase = Capturing\<rparr>]\<rparr>"




section \<open>Timers (utils/timeout.py)\<close>

text \<open>
  A \<^verbatim>\<open>threading.Timer\<close> object: the interval it waits, the time it was started, the
  method of the handler it will call, and its \<^verbatim>\<open>finished\<close> event, which \<^verbatim>\<open>cancel()\<close>
  sets and which the timer thread sets itself after the call. The thread waits the
  interval (a negative one not at all) and makes the call only if the event is not set.
\<close>

datatype timer_kind = SilenceTimer | InactivityTimer

record timer =
  interval :: rat
  started_at :: rat
  target :: timer_kind
  finished :: bool

text \<open>
  What happened, in order: a timer ran \<^verbatim>\<open>_silence_timeout\<close> or \<^verbatim>\<open>_inactivity_timeout\<close> at
  a time, or that method called the registered callback (named by a number) at a time.
\<close>

datatype timer_event = Fired timer_kind rat | Called timer_kind nat rat

text \<open>
  The attributes of a \<^verbatim>\<open>TimeoutHandler\<close> (a timer attribute refers to a Timer object by
  its position in \<open>timers\<close>), with the Timer objects created so far, the clock and the
  events so far.
\<close>

record timeout_handler =
  silence_timeout :: rat
  inactivity_timeout :: rat
  silence_timer :: "nat option"
  inactivity_timer :: "nat option"
  on_silence_callback :: "nat option"
  on_inactivity_callback :: "nat option"
  timers :: "timer list"
  clock :: rat
  log :: "timer_event list"

definition TimeoutHandler :: "rat \<Rightarrow> rat \<Rightarrow> rat \<Rightarrow> timeout_handler" where
  "TimeoutHandler silence inactivity now =
     \<lparr>silence_timeout = silence, inactivity_timeout = inactivity, silence_timer = None,
      inactivity_timer = None, on_silence_callback = None, on_inactivity_callback = None,
      timers = [], clock = now, log = []\<rparr>"

definition set_silence_callback :: "nat \<Rightarrow> timeout_handler \<Rightarrow> timeout_handler" where
  "set_silence_callback callback self = self\<lparr>on_silence_callback := Some callback\<rparr>"

definition set_inactivity_callback :: "nat \<Rightarrow> timeout_handler \<Rightarrow> timeout_handler" where
  "set_inactivity_callback callback self = self\<lparr>on_inactivity_callback := Some callback\<rparr>"

definition cancel :: "nat option \<Rightarrow> timer list \<Rightarrow> timer list" where
  "cancel ref ts =
     (case ref of
        None \<Rightarrow> ts
      | Some i \<Rightarrow> if i < length ts then ts[i := (ts ! i)\<lparr>finished := True\<rparr>] else ts)"

definition reset_silence_timer :: "timeout_handler \<Rightarrow> timeout_handler" where
  "reset_silence_timer self =
     (let ts = cancel (silence_timer self) (timers self)
      in self\<lparr>timers :=
                ts @ [\<lparr>interval = silence_timeout self, started_at = clock self,
                       target = SilenceTimer, finished = False\<rparr>],
              silence_timer := Some (length ts)\<rparr>)"

definition reset_inactivity_timer :: "timeout_handler \<Rightarrow> timeout_handler" where
  "reset_inactivity_timer self =
     (let ts = cancel (inactivity_timer self) (timers self)
      in self\<lparr>timers :=
                ts @ [\<lparr>interval = inactivity_timeout self, started_at = clock self,
                       target = InactivityTimer, finished = False\<rparr>],
              inactivity_timer := Some (length ts)\<rparr>)"

definition reset_timeout :: "timeout_handler \<Rightarrow> timeout_handler" where
  "reset_timeout self = reset_inactivity_timer (reset_silence_timer self)"

definition stop :: "timeout_handler \<Rightarrow> timeout_handler" where
  "stop self =
     self\<lparr>timers := cancel (inactivity_timer self) (cancel (silence_timer self) (timers self)),
          silence_timer := None, inactivity_timer := None\<rparr>"

definition deadline :: "timer \<Rightarrow> rat" where
  "deadline t = started_at t + max 0 (interval t)"

text \<open>
  The timer thread of Timer \<open>i\<close> at its deadline: \<^verbatim>\<open>_silence_timeout\<close> or
  \<^verbatim>\<open>_inactivity_timeout\<close> runs, calling the registered callback if there is one.
\<close>

definition callback_events :: "timer_kind \<Rightarrow> nat option \<Rightarrow> rat \<Rightarrow> timer_event list" where
  "callback_events kind callback t =
     (case callback of None \<Rightarrow> [] | Some c \<Rightarrow> [Called kind c t])"

definition fire :: "nat \<Rightarrow> timeout_handler \<Rightarrow> timeout_handler" where
  "fire i self =
     (let t = timers self ! i
      in if finished t then self
         else self\<lparr>timers := (timers self)[i := t\<lparr>finished := True\<rparr>],
                   log := log self @ Fired (target t) (deadline t) #
                     callback_events (target t)
                       (case target t of
                          SilenceTimer \<Rightarrow> on_silence_callback self
                        | InactivityTimer \<Rightarrow> on_inactivity_callback self)
                       (deadline t)\<rparr>)"

text \<open>
  Time passes until \<open>T\<close>: the timers that are not finished and whose deadline is reached
  fire, by deadline.
\<close>

definition due :: "rat \<Rightarrow> timeout_handler \<Rightarrow> nat list" where
  "due T self =
     sort_key (\<lambda>i. deadline (timers self ! i))
       (filter (\<lambda>i. \<not> finished (timers self ! i) \<and> deadline (timers self ! i) \<le> T)
          [0..<length (timers self)])"

definition advance :: "rat \<Rightarrow> timeout_handler \<Rightarrow> timeout_handler" where
  "advance T self = (fold fire (due T self) self)\<lparr>clock := max (clock self) T\<rparr>"

text \<open>
  Calls of \<^verbatim>\<open>reset_silence_timer\<close> in succession, each after the given delay since the
  call before it.
\<close>

fun resets :: "rat list \<Rightarrow> timeout_handler \<Rightarrow> timeout_handler" where
  "resets [] self = self"
| "resets (d # ds) self = resets ds (reset_silence_timer (advance (clock self + d) self))"

text \<open>
  The events of the silence timeout among the events, and the Timer objects for the
  silence timeout that can still fire.
\<close>

fun event_kind :: "timer_event \<Rightarrow> timer_kind" where
  "event_kind (Fired kind t) = kind"
| "event_kind (Called kind c t) = kind"

definition silence_events :: "timer_event list \<Rightarrow> timer_event list" where
  "silence_events evs = filter (\<lambda>ev. event_kind ev = SilenceTimer) evs"

definition pending_silence :: "timeout_handler \<Rightarrow> nat \<Rightarrow> bool" where
  "pending_silence self i \<longleftrightarrow>
     i < length (timers self) \<and> target (timers self ! i) = SilenceTimer \<and>
     \<not> finished (timers self ! i)"

text \<open>
  A handler is consistent when every silence Timer that can still fire is the one its
  \<^verbatim>\<open>silence_timer\<close> attribute refers to, as is the case for a new handler and after
  every method. \<open>expires_after self T\<close>: no such Timer has its deadline by \<open>T\<close>.
\<close>

definition consistent :: "timeout_handler \<Rightarrow> bool" where
  "consistent self \<longleftrightarrow>
     list_all (\<lambda>i. pending_silence self i \<longrightarrow> silence_timer self = Some i)
       [0..<length (timers self)]"

definition expires_after :: "timeout_handler \<Rightarrow> rat \<Rightarrow> bool" where
  "expires_after self T \<longleftrightarrow>
     list_all (\<lambda>i. pending_silence self i \<longrightarrow> T < deadline (timers self ! i))
       [0..<length (timers self)]"

text \<open>
  A handler with a silence timeout of 5 and an inactivity timeout of 10 seconds, created
  at time 0, with callback number 7 registered for silence, and with its inactivity timer
  armed.
\<close>

definition sample_handler :: timeout_handler where
  "sample_handler = reset_inactivity_timer (set_silence_callback 7 (TimeoutHandler 5 10 0))"

section \<open>Assistant service (services/ai\_assistant.py)\<close>

text \<open>
  The assistant is its \<^verbatim>\<open>generate_response(text, language)\<close> and the speech synthesizer
  its \<^verbatim>\<open>speak(text, language)\<close>; both return a text or raise. The globals
  \<^verbatim>\<open>_ai_assistant\<close>, \<^verbatim>\<open>_translator\<close> and \<^verbatim>\<open>_tts\<close> are \<open>None\<close> before
  \<^verbatim>\<open>initialize()\<close>.
\<close>

type_synonym assistant = "ustring \<Rightarrow> ustring \<Rightarrow> exn + ustring"

type_synonym speaker = "ustring \<Rightarrow> ustring \<Rightarrow> exn + ustring"

record assistant_globals =
  ai_assistant_g :: "assistant option"
  translator_g :: "translator option"
  tts_g :: "speaker option"

text \<open>
  What the service meets: the outcomes of \<^verbatim>\<open>AIAssistant()\<close>, \<^verbatim>\<open>get_translator()\<close> and
  \<^verbatim>\<open>get_tts()\<close>, and the world of the translator.
\<close>

record assistant_env =
  new_AIAssistant :: "exn + assistant"
  get_translator :: "exn + translator"
  get_tts :: "exn + speaker"
  translator_world :: world

record response =
  response_text :: ustring
  audio :: "ustring option"
  source_language :: ustring
  target_language :: ustring
  error :: "ustring option"

definition initialize :: "assistant_env \<Rightarrow> assistant_globals \<Rightarrow> assistant_globals \<times> exn option" where
  "initialize env g =
     (case new_AIAssistant env of
        Inl e \<Rightarrow> (g, Some e)
      | Inr a \<Rightarrow>
          (let g1 = g\<lparr>ai_assistant_g := Some a\<rparr>
           in case get_translator env of
                Inl e \<Rightarrow> (g1, Some e)
              | Inr t \<Rightarrow>
                  (let g2 = g1\<lparr>translator_g := Some t\<rparr>
                   in case get_tts env of
                        Inl e \<Rightarrow> (g2, Some e)
                      | Inr s \<Rightarrow> (g2\<lparr>tts_g := Some s\<rparr>, None))))"

definition get_ai_assistant ::
  "assistant_env \<Rightarrow> assistant_globals \<Rightarrow> assistant_globals \<times> (exn + assistant option)" where
  "get_ai_assistant env g =
     (if ai_assistant_g g = None then
        (case initialize env g of
           (g', Some e) \<Rightarrow> (g', Inl e)
         | (g', None) \<Rightarrow> (g', Inr (ai_assistant_g g')))
      else (g, Inr (ai_assistant_g g)))"

text \<open>The fallback messages of the \<^verbatim>\<open>except\<close> branch, as code points.\<close>

definition error_message_en :: ustring where
  "error_message_en =
     [73, 39, 109, 32, 115, 111, 114, 114, 121, 44, 32, 73, 32, 99, 111, 117, 108,
      100, 110, 39, 116, 32, 112, 114, 111, 99, 101, 115, 115, 32, 121, 111, 117,
      114, 32, 114, 101, 113, 117, 101, 115, 116, 46]"

definition error_message_tl :: ustring where
  "error_message_tl =
     [80, 97, 117, 109, 97, 110, 104, 105, 110, 44, 32, 104, 105, 110, 100, 105, 32,
      107, 111, 32, 109, 97, 112, 114, 111, 115, 101, 115, 111, 32, 97, 110, 103,
      32, 105, 121, 111, 110, 103, 32, 107, 97, 104, 105, 108, 105, 110, 103, 97,
      110, 46]"

definition error_message_ko :: ustring where
  "error_message_ko =
     [51396, 49569, 54633, 45768, 45796, 44, 32, 50836, 52397, 51012, 32, 52376,
      47532, 54624, 32, 49688, 32, 50630, 49845, 45768, 45796, 46]"

definition error_messages :: "ustring \<Rightarrow> ustring" where
  "error_messages response_lang =
     (if response_lang = u ''en'' then error_message_en
      else if response_lang = u ''tl'' then error_message_tl
      else if response_lang = u ''ko'' then error_message_ko
      else error_message_en)"

text \<open>The translation step of the pipeline: the text to answer with, or an exception.\<close>

definition translate_response ::
  "assistant_env \<Rightarrow> assistant_globals \<Rightarrow> ustring \<Rightarrow> ustring \<Rightarrow> exn + ustring" where
  "translate_response env g english_response response_lang =
     (case translator_g g of
        Some tr \<Rightarrow>
          if response_lang \<noteq> u ''en''
          then snd (translate tr (translator_world env) english_response (u ''en'')
                      response_lang False)
          else Inr english_response
      | None \<Rightarrow> Inr english_response)"

text \<open>The speech step: a failure of the synthesizer is caught and leaves no audio.\<close>

definition synthesize :: "assistant_globals \<Rightarrow> ustring \<Rightarrow> ustring \<Rightarrow> ustring option" where
  "synthesize g translated_response response_lang =
     (case tts_g g of
        None \<Rightarrow> None
      | Some speak \<Rightarrow>
          (case speak translated_response response_lang of
             Inl e \<Rightarrow> None
           | Inr audio_data \<Rightarrow> Some audio_data))"

text \<open>The \<^verbatim>\<open>try\<close> block of \<^verbatim>\<open>_process_query_sync\<close>.\<close>

definition process_query_try ::
  "assistant_env \<Rightarrow> assistant_globals \<Rightarrow> ustring \<Rightarrow> ustring \<Rightarrow> ustring \<Rightarrow>
     assistant_globals \<times> (exn + response)" where
  "process_query_try env g english_query source_lang response_lang =
     (case get_ai_assistant env g of
        (g', Inl e) \<Rightarrow> (g', Inl e)
      | (g', Inr None) \<Rightarrow> (g', Inl (Exn (u ''AttributeError'')))
      | (g', Inr (Some generate_response)) \<Rightarrow>
          (case generate_response english_query (u ''en'') of
             Inl e \<Rightarrow> (g', Inl e)
           | Inr english_response \<Rightarrow>
               (case translate_response env g' english_response response_lang of
                  Inl e \<Rightarrow> (g', Inl e)
                | Inr translated_response \<Rightarrow>
                    (g', Inr \<lparr>response_text = translated_response,
                              audio = synthesize g' translated_response response_lang,
                              source_language = source_lang,
                              target_language = response_lang,
                              error = None\<rparr>))))"

definition process_query_sync ::
  "assistant_env \<Rightarrow> assistant_globals \<Rightarrow> ustring \<Rightarrow> ustring \<Rightarrow> ustring \<Rightarrow>
     assistant_globals \<times> response" where
  "process_query_sync env g english_query source_lang response_lang =
     (case process_query_try env g english_query source_lang response_lang of
        (g', Inr r) \<Rightarrow> (g', r)
      | (g', Inl e) \<Rightarrow>
          (g', \<lparr>response_text = error_messages response_lang, audio = None,
                source_language = source_lang, target_language = response_lang,
                error = Some (str_exn e)\<rparr>))"

text \<open>
  Concrete collaborators for the worked inputs: an assistant that answers with a fixed
  text, a synthesizer that raises, and the globals and environment made of them.
\<close>

definition sample_assistant :: assistant where
  "sample_assistant query language = Inr (u ''It is noon.'')"

definition failing_speaker :: speaker where
  "failing_speaker t language = Inl (Exn (u ''piper crashed''))"

definition sample_globals :: assistant_globals where
  "sample_globals =
     \<lparr>ai_assistant_g = Some sample_assistant,
      translator_g =
        Some \<lparr>argos_available = True,
              translation_pairs = [pair_key (u ''en'') (u ''tl'') \<mapsto> tag_engine (u ''tl:'')]\<rparr>,
      tts_g = Some failing_speaker\<rparr>"

definition sample_assistant_env :: assistant_env where
  "sample_assistant_env =
     \<lparr>new_AIAssistant = Inr sample_assistant,
      get_translator = Inr \<lparr>argos_available = False, translation_pairs = Map.empty\<rparr>,
      get_tts = Inr failing_speaker,
      translator_world = sample_world\<rparr>"

section \<open>Speech recognizer (models/speech\_recognition.py)\<close>

text \<open>
  Audio is a sequence of bytes. A recognizer kept in \<^verbatim>\<open>self.recognizers\<close> is the object
  built by \<^verbatim>\<open>KaldiRecognizer\<close> together with the audio it has been fed so far, on which
  its answers depend.
\<close>

type_synonym audio = "nat list"

record speech_recognizer =
  vosk_available :: bool
  model_paths :: "ustring \<rightharpoonup> ustring"
  sr_models :: "ustring \<rightharpoonup> vosk_model"
  recognizers :: "ustring \<rightharpoonup> recognizer \<times> audio list"

text \<open>
  The answer of a recognizer to \<^verbatim>\<open>AcceptWaveform\<close>: accepted, with the \<^verbatim>\<open>text\<close> field of
  \<^verbatim>\<open>Result()\<close> when there is one, or not accepted, with the \<^verbatim>\<open>partial\<close> field of
  \<^verbatim>\<open>PartialResult()\<close> when there is one.
\<close>

datatype decoded = Result "ustring option" | PartialResult "ustring option"

text \<open>
  What the recognizer meets outside itself: the online service, the file system
  (\<^verbatim>\<open>os.makedirs\<close>, \<^verbatim>\<open>os.path.exists\<close>), the download and unpacking of a model from a
  URL to a path, \<^verbatim>\<open>vosk.Model(path)\<close>, \<^verbatim>\<open>vosk.KaldiRecognizer(model, rate)\<close> and the
  answer of a model's recognizer to the audio fed so far.
\<close>

record vosk_env =
  recognize_online :: "audio \<Rightarrow> ustring \<Rightarrow> exn + ustring"
  models_dir :: ustring
  makedirs :: "exn option"
  path_exists :: "ustring \<Rightarrow> bool"
  fetch :: "ustring \<Rightarrow> ustring \<Rightarrow> exn option"
  load :: "ustring \<Rightarrow> exn + vosk_model"
  KaldiRecognizer :: kaldi
  decode :: "vosk_model \<Rightarrow> audio list \<Rightarrow> exn + decoded"

definition model_urls :: "ustring \<rightharpoonup> ustring" where
  "model_urls =
     [u ''en'' \<mapsto> u ''https://alphacephei.com/vosk/models/vosk-model-small-en-us-0.15.zip'',
      u ''tl'' \<mapsto> u ''https://alphacephei.com/vosk/models/vosk-model-small-tl-ph-0.15.zip'',
      u ''ko'' \<mapsto> u ''https://alphacephei.com/vosk/models/vosk-model-small-ko-0.22.zip'']"

definition load_model :: "vosk_env \<Rightarrow> speech_recognizer \<Rightarrow> ustring \<Rightarrow> speech_recognizer" where
  "load_model env self language =
     (if \<not> vosk_available self then self
      else case model_paths self language of
        None \<Rightarrow> self
      | Some model_path \<Rightarrow>
          (case load env model_path of
             Inl e \<Rightarrow> self
           | Inr m \<Rightarrow> self\<lparr>sr_models := (sr_models self)(language \<mapsto> m)\<rparr>))"

text \<open>
  \<^verbatim>\<open>_download_model(language)\<close>: the recognizer afterwards, and the exception if one left
  the method. Creating the models directory is outside every \<^verbatim>\<open>try\<close>.
\<close>

definition download_model ::
  "vosk_env \<Rightarrow> speech_recognizer \<Rightarrow> ustring \<Rightarrow> speech_recognizer \<times> exn option" where
  "download_model env self language =
     (if \<not> vosk_available self then (self, None)
      else case model_urls language of
        None \<Rightarrow> (self, None)
      | Some url \<Rightarrow>
          (case makedirs env of
             Some e \<Rightarrow> (self, Some e)
           | None \<Rightarrow>
               (let model_path = models_dir env @ u ''/vosk-model-'' @ language;
                    self1 = self\<lparr>model_paths := (model_paths self)(language \<mapsto> model_path)\<rparr>
                in if path_exists env model_path then (load_model env self1 language, None)
                   else case fetch env url model_path of
                          Some e \<Rightarrow> (self1, None)
                        | None \<Rightarrow> (load_model env self1 language, None))))"

definition unavailable :: ustring where
  "unavailable = u ''[Speech recognition unavailable]''"

definition model_not_available :: ustring where
  "model_not_available = u ''[Speech recognition model not available]''"

definition recognition_error :: ustring where
  "recognition_error = u ''[Speech recognition error]''"

text \<open>
  The \<^verbatim>\<open>try\<close> block of \<^verbatim>\<open>recognize\<close>, for the language settled on: the recognizer of that
  language's model is made if there is none yet, fed the audio and asked. Every exception
  in the block gives the error text.
\<close>

definition recognize_with ::
  "vosk_env \<Rightarrow> speech_recognizer \<Rightarrow> audio \<Rightarrow> ustring \<Rightarrow> speech_recognizer \<times> ustring" where
  "recognize_with env self audio_data language =
     (case (case recognizers self language of
              Some r \<Rightarrow> Inr r
            | None \<Rightarrow>
                (case sr_models self language of
                   None \<Rightarrow> Inl (Exn (u ''KeyError''))
                 | Some m \<Rightarrow> map_sum id (\<lambda>r. (r, [])) (KaldiRecognizer env m 16000))) of
        Inl e \<Rightarrow> (self, recognition_error)
      | Inr (r, heard) \<Rightarrow>
          (let self1 =
             self\<lparr>recognizers := (recognizers self)(language \<mapsto> (r, heard @ [audio_data]))\<rparr>
           in case decode env (rec_model r) (heard @ [audio_data]) of
                Inl e \<Rightarrow> (self1, recognition_error)
              | Inr (Result t) \<Rightarrow> (self1, case t of None \<Rightarrow> [] | Some s \<Rightarrow> s)
              | Inr (PartialResult p) \<Rightarrow> (self1, case p of None \<Rightarrow> [] | Some s \<Rightarrow> s)))"

text \<open>The offline part of \<^verbatim>\<open>recognize\<close>, after the online attempt.\<close>

definition recognize_offline ::
  "vosk_env \<Rightarrow> speech_recognizer \<Rightarrow> audio \<Rightarrow> ustring \<Rightarrow> speech_recognizer \<times> (exn + ustring)" where
  "recognize_offline env self audio_data language =
     (if \<not> vosk_available self then (self, Inr unavailable)
      else if language \<notin> dom (sr_models self) then
        (case download_model env self language of
           (self1, Some e) \<Rightarrow> (self1, Inl e)
         | (self1, None) \<Rightarrow>
             (if language \<notin> dom (sr_models self1) \<and> u ''en'' \<in> dom (sr_models self1)
              then map_prod id Inr (recognize_with env self1 audio_data (u ''en''))
              else if language \<notin> dom (sr_models self1)
              then (self1, Inr model_not_available)
              else map_prod id Inr (recognize_with env self1 audio_data language)))
      else map_prod id Inr (recognize_with env self audio_data language))"

definition recognize ::
  "vosk_env \<Rightarrow> speech_recognizer \<Rightarrow> audio \<Rightarrow> ustring \<Rightarrow> bool \<Rightarrow>
     speech_recognizer \<times> (exn + ustring)" where
  "recognize env self audio_data language online =
     (if online then
        (case recognize_online env audio_data language of
           Inr t \<Rightarrow> (self, Inr t)
         | Inl e \<Rightarrow> recognize_offline env self audio_data language)
      else recognize_offline env self audio_data language)"

text \<open>
  Concrete collaborators for the worked inputs: every model is on disk and loads (a
  loaded model is named by its path), and a recognizer answers with the name of its
  model. The recognizer object has the English model loaded and nothing else.
\<close>

definition sample_vosk_env :: vosk_env where
  "sample_vosk_env =
     \<lparr>recognize_online = (\<lambda>audio_data language. Inl (Exn (u ''network unreachable''))),
      models_dir = u ''vosk_models'',
      makedirs = None,
      path_exists = (\<lambda>p. True),
      fetch = (\<lambda>url p. None),
      load = (\<lambda>p. Inr p),
      KaldiRecognizer = sample_kaldi,
      decode = (\<lambda>m heard. Inr (Result (Some m)))\<rparr>"

definition english_only :: speech_recognizer where
  "english_only =
     \<lparr>vosk_available = True,
      model_paths = [u ''en'' \<mapsto> u ''vosk_models/vosk-model-en''],
      sr_models = [u ''en'' \<mapsto> u ''vosk_models/vosk-model-en''],
      recognizers = Map.empty\<rparr>"

text \<open>The same environment with no model on disk and no network to fetch one.\<close>

definition offline_vosk_env :: vosk_env where
  "offline_vosk_env =
     sample_vosk_env\<lparr>path_exists := (\<lambda>p. False),
                      fetch := (\<lambda>url p. Some (Exn (u ''network unreachable'')))\<rparr>"

text \<open>\<^verbatim>\<open>result.get('text', '')\<close> and \<^verbatim>\<open>partial.get('partial', '')\<close>\<close>

definition answer_text :: "decoded \<Rightarrow> ustring" where
  "answer_text d =
     (case d of
        Result t \<Rightarrow> (case t of None \<Rightarrow> [] | Some s \<Rightarrow> s)
      | PartialResult p \<Rightarrow> (case p of None \<Rightarrow> [] | Some s \<Rightarrow> s))"

section \<open>Properties\<close>

subsection \<open>Language detection\<close>

lemma korean_chars_length: "korean_chars text = length (filter hangul text)"
  by (simp add: korean_chars_def hangul_def sum_list_triv cong: filter_cong)

lemma korean_chars_le: "korean_chars text \<le> length text"
  by (simp add: korean_chars_length)

lemma percentage_exact:
  assumes "k \<le> n"
  shows "((of_nat k :: rat) / of_nat (max 1 n) > 3 / 10) \<longleftrightarrow> 3 * n < 10 * k"
proof -
  have pos: "(0::rat) < of_nat (max 1 n)" by simp
  have "((of_nat k :: rat) / of_nat (max 1 n) > 3 / 10) \<longleftrightarrow>
        (3::rat) * of_nat (max 1 n) < 10 * of_nat k"
    using pos by (simp add: field_simps)
  also have "\<dots> \<longleftrightarrow> (of_nat (3 * max 1 n) :: rat) < of_nat (10 * k)"
    by simp
  also have "\<dots> \<longleftrightarrow> 3 * max 1 n < 10 * k"
    by (rule of_nat_less_iff)
  also have "\<dots> \<longleftrightarrow> 3 * n < 10 * k"
    using assms by (cases n) auto
  finally show ?thesis .
qed

lemma count_members:
  "distinct ws \<Longrightarrow> sum_list (map (\<lambda>w. if w \<in> S then 1 else 0) ws) = card (set ws \<inter> S)"
proof (induction ws)
  case Nil
  then show ?case by simp
next
  case (Cons w ws)
  then show ?case
    by (cases "w \<in> S") (simp_all add: card_insert_if)
qed

lemma distinct_filipino_words: "distinct filipino_words"
  by (simp add: filipino_words_def u_def)

lemma filipino_count_card:
  "filipino_count text = card (set filipino_words \<inter> set (split text))"
  unfolding filipino_count_def using distinct_filipino_words by (rule count_members)

text \<open>
  C7 (amended). With no FastText model, \<open>detect\<close> answers English for a blank text and
  otherwise decides on the lower-cased text: Korean when strictly more than 30 percent of
  its code points are Hangul syllables, else Tagalog when at least two different words of
  the fixed Filipino list occur among its whitespace-separated words, else English. The
  Korean test comes first.
\<close>

theorem detect_heuristic_fallback:
  assumes "model self = None"
  shows "detect lower self text =
     (if blank text then u ''en''
      else if 3 * length (lower text) < 10 * length (filter hangul (lower text)) then u ''ko''
      else if 2 \<le> card (set filipino_words \<inter> set (split (lower text))) then u ''tl''
      else u ''en'')"
  using assms percentage_exact [OF korean_chars_le, of "lower text"]
  by (simp add: detect_def detect_fasttext_def detect_fallback_def Let_def
      filipino_count_card korean_chars_length)

theorem detect_heuristic_fallback_witness:
  "model \<lparr>model = None\<rparr> = None \<and>
   detect lower_basic \<lparr>model = None\<rparr> ([44032, 44032, 44032, 44032] @ u ''abcdef'') = u ''ko''"
  using detect_heuristic_fallback
      [of "\<lparr>model = None\<rparr>" lower_basic "[44032, 44032, 44032, 44032] @ u ''abcdef''"]
  by (simp add: blank_def strip_def isspace_def u_def lower_basic_def lower_cp_def hangul_def)

text \<open>
  C7 as stated fails: a text with exactly 30 percent Hangul syllables (3 of 10 code
  points), a text whose two words both match the list but are the same word, and a text
  with 4 Hangul syllables among 10 code points whose lower-casing is 16 code points long
  are all answered English.
\<close>

theorem detect_heuristic_fallback_counterexample:
  "detect lower_basic \<lparr>model = None\<rparr> ([44032, 44032, 44032] @ u ''abcdefg'') = u ''en'' \<and>
   detect lower_basic \<lparr>model = None\<rparr> (u ''ang ang'') = u ''en'' \<and>
   detect lower_basic \<lparr>model = None\<rparr>
     [44032, 44032, 44032, 44032, 304, 304, 304, 304, 304, 304] = u ''en''"
  by (simp add: detect_def detect_fasttext_def detect_fallback_def korean_chars_def
      filipino_count_def filipino_words_def split_def lower_basic_def lower_cp_def blank_def
      strip_def isspace_def u_def)

subsection \<open>Translation routing\<close>

lemma u_eq_iff: "u a = u b \<longleftrightarrow> a = b"
proof -
  have "inj (of_char :: char \<Rightarrow> nat)"
    by (rule injI) simp
  then show ?thesis
    by (simp add: u_def inj_map_eq_map)
qed

lemma u_append: "u a @ u b = u (a @ b)"
  by (simp add: u_def)

lemma pair_key_u: "pair_key (u a) (u b) = u (a @ ''-'' @ b)"
  by (simp add: pair_key_def u_def)

lemma not_available_u:
  "not_available (u a) (u b) = u (''[Translation not available for '' @ a @ '' to '' @ b @ '']'')"
  by (simp add: not_available_def u_def)

lemma translate_returns: "\<exists>s. snd (translate self w text from_lang to_lang online) = Inr s"
  by (simp add: translate_def Let_def split: prod.splits option.splits sum.splits)

lemma blank_samples:
  "\<not> blank (u ''hello'')" "\<not> blank (u ''kumusta'')" "blank (u '' '')"
  by (simp_all add: blank_def strip_def isspace_def u_def)

lemma detect_hello: "detect lower_basic \<lparr>model = None\<rparr> (u ''hello'') = u ''en''"
  by (simp add: detect_def detect_fasttext_def detect_fallback_def korean_chars_def
      filipino_count_def filipino_words_def split_def lower_basic_def lower_cp_def blank_def
      strip_def isspace_def u_def)

text \<open>
  C1 (amended). For a non-blank text and languages A and B that differ from each other,
  with the offline engine available and no direct pair registered, an offline-mode call
  behaves as follows. When neither A nor B is English, the path is exactly the two hops
  A to English and English to B, run in that order, the output of the first being the
  input of the second: an unregistered first hop gives the message naming A to English
  with no engine call, an unregistered second hop gives the message naming English to B
  after the first hop has run, and a hop whose engine raises gives the message naming A
  to B. When A or B is English, the path is the single hop A to B, which is the
  unregistered direct pair: the call gives the message naming A to B with no engine call,
  whatever else is registered. No path has more than two hops.
\<close>

theorem translate_two_hops:
  assumes "\<not> blank text" and "A \<noteq> u ''auto''" and "A \<noteq> B"
    and "argos_available self"
    and "translation_pairs self (pair_key A B) = None"
  shows "get_intermediate_translations A B =
      (if A \<noteq> u ''en'' \<and> B \<noteq> u ''en'' then [(A, u ''en''), (u ''en'', B)] else [(A, B)]) \<and>
    (\<forall>x y. length (get_intermediate_translations x y) \<le> 2) \<and>
    (A \<noteq> u ''en'' \<and> B \<noteq> u ''en'' \<longrightarrow>
     translate self w text A B False =
      (case translation_pairs self (pair_key A (u ''en'')) of
         None \<Rightarrow> ([], Inr (not_available A (u ''en'')))
       | Some f \<Rightarrow>
           (case f text of
              Inl e \<Rightarrow> ([OfflineCall (pair_key A (u ''en'')) text], Inr (not_available A B))
            | Inr r \<Rightarrow>
                (case translation_pairs self (pair_key (u ''en'') B) of
                   None \<Rightarrow>
                     ([OfflineCall (pair_key A (u ''en'')) text],
                      Inr (not_available (u ''en'') B))
                 | Some g \<Rightarrow>
                     ([OfflineCall (pair_key A (u ''en'')) text,
                       OfflineCall (pair_key (u ''en'') B) r],
                      Inr (case g r of Inl e \<Rightarrow> not_available A B | Inr r' \<Rightarrow> r')))))) \<and>
    (A = u ''en'' \<or> B = u ''en'' \<longrightarrow>
     translate self w text A B False = ([], Inr (not_available A B)))"
proof -
  have path: "get_intermediate_translations A B =
      (if A \<noteq> u ''en'' \<and> B \<noteq> u ''en'' then [(A, u ''en''), (u ''en'', B)] else [(A, B)])"
    by (simp add: get_intermediate_translations_def)
  have depth: "\<forall>x y. length (get_intermediate_translations x y) \<le> 2"
    by (simp add: get_intermediate_translations_def)
  have two: "A \<noteq> u ''en'' \<and> B \<noteq> u ''en'' \<longrightarrow>
     translate self w text A B False =
      (case translation_pairs self (pair_key A (u ''en'')) of
         None \<Rightarrow> ([], Inr (not_available A (u ''en'')))
       | Some f \<Rightarrow>
           (case f text of
              Inl e \<Rightarrow> ([OfflineCall (pair_key A (u ''en'')) text], Inr (not_available A B))
            | Inr r \<Rightarrow>
                (case translation_pairs self (pair_key (u ''en'') B) of
                   None \<Rightarrow>
                     ([OfflineCall (pair_key A (u ''en'')) text],
                      Inr (not_available (u ''en'') B))
                 | Some g \<Rightarrow>
                     ([OfflineCall (pair_key A (u ''en'')) text,
                       OfflineCall (pair_key (u ''en'') B) r],
                      Inr (case g r of Inl e \<Rightarrow> not_available A B | Inr r' \<Rightarrow> r')))))"
    using assms
    by (simp add: translate_def resolve_from_def try_online_def offline_block_def
        get_intermediate_translations_def split: option.splits sum.splits)
  have one: "A = u ''en'' \<or> B = u ''en'' \<longrightarrow>
     translate self w text A B False = ([], Inr (not_available A B))"
    using assms
    by (auto simp add: translate_def resolve_from_def try_online_def offline_block_def
        get_intermediate_translations_def)
  from path depth two one show ?thesis by (intro conjI)
qed

theorem translate_two_hops_witness:
  "translate
     \<lparr>argos_available = True,
      translation_pairs =
        [pair_key (u ''tl'') (u ''en'') \<mapsto> tag_engine (u ''en:''),
         pair_key (u ''en'') (u ''ko'') \<mapsto> tag_engine (u ''ko:'')]\<rparr>
     sample_world (u ''kumusta'') (u ''tl'') (u ''ko'') False =
   ([OfflineCall (pair_key (u ''tl'') (u ''en'')) (u ''kumusta''),
     OfflineCall (pair_key (u ''en'') (u ''ko'')) (u ''en:kumusta'')],
    Inr (u ''ko:en:kumusta'')) \<and>
   translate
     \<lparr>argos_available = True,
      translation_pairs =
        [pair_key (u ''en'') (u ''en'') \<mapsto> tag_engine (u ''en:''),
         pair_key (u ''en'') (u ''ko'') \<mapsto> tag_engine (u ''ko:'')]\<rparr>
     sample_world (u ''kumusta'') (u ''tl'') (u ''en'') False =
   ([], Inr (not_available (u ''tl'') (u ''en'')))"
  using translate_two_hops
      [of "u ''kumusta''" "u ''tl''" "u ''ko''"
         "\<lparr>argos_available = True,
           translation_pairs =
             [pair_key (u ''tl'') (u ''en'') \<mapsto> tag_engine (u ''en:''),
              pair_key (u ''en'') (u ''ko'') \<mapsto> tag_engine (u ''ko:'')]\<rparr>"
         sample_world]
    translate_two_hops
      [of "u ''kumusta''" "u ''tl''" "u ''en''"
         "\<lparr>argos_available = True,
           translation_pairs =
             [pair_key (u ''en'') (u ''en'') \<mapsto> tag_engine (u ''en:''),
              pair_key (u ''en'') (u ''ko'') \<mapsto> tag_engine (u ''ko:'')]\<rparr>"
         sample_world]
  by (simp add: blank_def strip_def isspace_def u_def pair_key_def tag_engine_def)

text \<open>
  C1 as stated fails: from English the path is the single hop English to Tagalog, and no
  English to English hop runs although one is registered; without the offline engine, and
  when the first hop's engine raises, the message names the original pair; a blank text
  gives the empty text.
\<close>

theorem translate_two_hops_counterexample:
  "get_intermediate_translations (u ''en'') (u ''tl'') = [(u ''en'', u ''tl'')] \<and>
   get_intermediate_translations (u ''en'') (u ''tl'') \<noteq>
     [(u ''en'', u ''en''), (u ''en'', u ''tl'')] \<and>
   translate \<lparr>argos_available = True,
              translation_pairs = [pair_key (u ''en'') (u ''en'') \<mapsto> tag_engine (u ''en:'')]\<rparr>
     sample_world (u ''hello'') (u ''en'') (u ''tl'') False =
     ([], Inr (not_available (u ''en'') (u ''tl''))) \<and>
   translate \<lparr>argos_available = False, translation_pairs = Map.empty\<rparr>
     sample_world (u ''hello'') (u ''tl'') (u ''ko'') False =
     ([], Inr (not_available (u ''tl'') (u ''ko''))) \<and>
   translate \<lparr>argos_available = True,
              translation_pairs = [pair_key (u ''tl'') (u ''en'') \<mapsto> failing_engine]\<rparr>
     sample_world (u ''hello'') (u ''tl'') (u ''ko'') False =
     ([OfflineCall (pair_key (u ''tl'') (u ''en'')) (u ''hello'')],
      Inr (not_available (u ''tl'') (u ''ko''))) \<and>
   translate \<lparr>argos_available = True, translation_pairs = Map.empty\<rparr>
     sample_world (u '' '') (u ''tl'') (u ''ko'') False = ([], Inr [])"
  by (simp add: translate_def resolve_from_def try_online_def offline_block_def
      get_intermediate_translations_def pair_key_def not_available_def
      failing_engine_def tag_engine_def blank_def strip_def isspace_def u_def)

text \<open>
  C2 (amended). The hops of a path are looked up one at a time, each just before it would
  run. For a non-blank text whose source differs from the target, with the offline engine
  available, no direct pair registered and nothing obtained online: when the first hop of
  the path is not registered the call returns that hop's message and no offline engine
  has been called; when the first hop is registered and returns, and the next hop is not
  registered, the call returns the next hop's message after exactly one offline engine
  call, that of the first hop. In online mode the online engine has been called once
  before either.
\<close>

theorem translate_calls_before_missing_hop:
  assumes "\<not> blank text" and "from_lang \<noteq> u ''auto''" and "from_lang \<noteq> to_lang"
    and "argos_available self"
    and "translation_pairs self (pair_key from_lang to_lang) = None"
    and "get_intermediate_translations from_lang to_lang = (src, tgt) # rest"
    and "snd (try_online w text from_lang to_lang online) = None"
  shows
    "(translation_pairs self (pair_key src tgt) = None \<longrightarrow>
        translate self w text from_lang to_lang online =
          (if online then [OnlineCall text from_lang to_lang] else [],
           Inr (not_available src tgt))) \<and>
     (\<forall>f r src' tgt' rest'.
        translation_pairs self (pair_key src tgt) = Some f \<and> f text = Inr r \<and>
        rest = (src', tgt') # rest' \<and> translation_pairs self (pair_key src' tgt') = None \<longrightarrow>
        translate self w text from_lang to_lang online =
          ((if online then [OnlineCall text from_lang to_lang] else []) @
             [OfflineCall (pair_key src tgt) text],
           Inr (not_available src' tgt')))"
  using assms
  by (auto simp add: translate_def resolve_from_def try_online_def offline_block_def
      split: option.splits sum.splits if_splits)

theorem translate_calls_before_missing_hop_witness:
  "translate \<lparr>argos_available = True, translation_pairs = Map.empty\<rparr>
     sample_world (u ''kumusta'') (u ''tl'') (u ''ko'') True =
     ([OnlineCall (u ''kumusta'') (u ''tl'') (u ''ko'')],
      Inr (not_available (u ''tl'') (u ''en''))) \<and>
   translate
     \<lparr>argos_available = True,
      translation_pairs = [pair_key (u ''tl'') (u ''en'') \<mapsto> tag_engine (u ''en:'')]\<rparr>
     sample_world (u ''kumusta'') (u ''tl'') (u ''ko'') False =
     ([OfflineCall (pair_key (u ''tl'') (u ''en'')) (u ''kumusta'')],
      Inr (not_available (u ''en'') (u ''ko'')))"
  using translate_calls_before_missing_hop
      [of "u ''kumusta''" "u ''tl''" "u ''ko''"
         "\<lparr>argos_available = True, translation_pairs = Map.empty\<rparr>"
         "u ''tl''" "u ''en''" "[(u ''en'', u ''ko'')]" sample_world True]
    translate_calls_before_missing_hop
      [of "u ''kumusta''" "u ''tl''" "u ''ko''"
         "\<lparr>argos_available = True,
           translation_pairs = [pair_key (u ''tl'') (u ''en'') \<mapsto> tag_engine (u ''en:'')]\<rparr>"
         "u ''tl''" "u ''en''" "[(u ''en'', u ''ko'')]" sample_world False]
  by (simp add: blank_def strip_def isspace_def u_def pair_key_def tag_engine_def
      get_intermediate_translations_def try_online_def sample_world_def)

text \<open>
  C2 as stated fails: with Tagalog to English registered and English to Korean not, the
  request ends in the message for the missing hop after the first hop's engine has been
  called; and an online-mode request that ends in the message has called the online
  engine.
\<close>

theorem translate_calls_before_missing_hop_counterexample:
  "translate
     \<lparr>argos_available = True,
      translation_pairs = [pair_key (u ''tl'') (u ''en'') \<mapsto> tag_engine (u ''en:'')]\<rparr>
     sample_world (u ''hello'') (u ''tl'') (u ''ko'') False =
     ([OfflineCall (pair_key (u ''tl'') (u ''en'')) (u ''hello'')],
      Inr (not_available (u ''en'') (u ''ko''))) \<and>
   translate \<lparr>argos_available = True, translation_pairs = Map.empty\<rparr>
     sample_world (u ''hello'') (u ''tl'') (u ''ko'') True =
     ([OnlineCall (u ''hello'') (u ''tl'') (u ''ko'')],
      Inr (not_available (u ''tl'') (u ''en'')))"
  by (simp add: translate_def resolve_from_def try_online_def offline_block_def
      get_intermediate_translations_def pair_key_def not_available_def sample_world_def
      tag_engine_def blank_def strip_def isspace_def u_def)

text \<open>
  C3 (amended). \<open>translate\<close> never raises: every call returns a text. When every method
  has failed it returns the message \<^verbatim>\<open>[Translation not available for X to Y]\<close> in which
  Y is the requested target and X is the source language after the detection step: the
  requested source when that is neither \<^verbatim>\<open>auto\<close> nor equal to the target; otherwise the
  language the detector finds for the text, or English when the detector cannot be made.
  Every method has failed for the pair X to Y, the pair the engines are asked for.
\<close>

theorem translate_soft_failure:
  "(\<exists>s. snd (translate self w text from_lang to_lang online) = Inr s) \<and>
   (from_lang \<noteq> u ''auto'' \<and> from_lang \<noteq> to_lang \<and>
    all_methods_failed self w text from_lang to_lang online \<longrightarrow>
      snd (translate self w text from_lang to_lang online) =
        Inr (not_available from_lang to_lang)) \<and>
   (\<forall>detector.
      (from_lang = u ''auto'' \<or> from_lang = to_lang) \<and>
      LanguageDetector w = Inr detector \<and>
      all_methods_failed self w text (detect (str_lower w) detector text) to_lang online \<longrightarrow>
      snd (translate self w text from_lang to_lang online) =
        Inr (not_available (detect (str_lower w) detector text) to_lang)) \<and>
   (\<forall>e.
      (from_lang = u ''auto'' \<or> from_lang = to_lang) \<and>
      LanguageDetector w = Inl e \<and>
      all_methods_failed self w text (u ''en'') to_lang online \<longrightarrow>
      snd (translate self w text from_lang to_lang online) =
        Inr (not_available (u ''en'') to_lang))"
proof -
  have returns: "\<exists>s. snd (translate self w text from_lang to_lang online) = Inr s"
    by (rule translate_returns)
  have failed: "snd (translate self w text from_lang to_lang online) =
      Inr (not_available X to_lang)"
    if "resolve_from w text from_lang to_lang = X"
      and "all_methods_failed self w text X to_lang online" for X
    using that
    by (auto simp add: translate_def all_methods_failed_def Let_def
        split: prod.splits option.splits sum.splits)
  have given: "from_lang \<noteq> u ''auto'' \<and> from_lang \<noteq> to_lang \<and>
    all_methods_failed self w text from_lang to_lang online \<longrightarrow>
      snd (translate self w text from_lang to_lang online) =
        Inr (not_available from_lang to_lang)"
    using failed [of from_lang] by (simp add: resolve_from_def)
  have detected: "\<forall>detector.
      (from_lang = u ''auto'' \<or> from_lang = to_lang) \<and>
      LanguageDetector w = Inr detector \<and>
      all_methods_failed self w text (detect (str_lower w) detector text) to_lang online \<longrightarrow>
      snd (translate self w text from_lang to_lang online) =
        Inr (not_available (detect (str_lower w) detector text) to_lang)"
  proof (intro allI impI)
    fix detector
    assume a: "(from_lang = u ''auto'' \<or> from_lang = to_lang) \<and>
      LanguageDetector w = Inr detector \<and>
      all_methods_failed self w text (detect (str_lower w) detector text) to_lang online"
    then have "resolve_from w text from_lang to_lang = detect (str_lower w) detector text"
      by (auto simp add: resolve_from_def)
    then show "snd (translate self w text from_lang to_lang online) =
        Inr (not_available (detect (str_lower w) detector text) to_lang)"
      using a by (intro failed) simp_all
  qed
  have defaulted: "\<forall>e.
      (from_lang = u ''auto'' \<or> from_lang = to_lang) \<and>
      LanguageDetector w = Inl e \<and>
      all_methods_failed self w text (u ''en'') to_lang online \<longrightarrow>
      snd (translate self w text from_lang to_lang online) =
        Inr (not_available (u ''en'') to_lang)"
  proof (intro allI impI)
    fix e
    assume a: "(from_lang = u ''auto'' \<or> from_lang = to_lang) \<and>
      LanguageDetector w = Inl e \<and>
      all_methods_failed self w text (u ''en'') to_lang online"
    then have "resolve_from w text from_lang to_lang = u ''en''"
      by (auto simp add: resolve_from_def)
    then show "snd (translate self w text from_lang to_lang online) =
        Inr (not_available (u ''en'') to_lang)"
      using a by (intro failed) simp_all
  qed
  from returns given detected defaulted show ?thesis by (intro conjI)
qed

theorem translate_soft_failure_witness:
  "all_methods_failed \<lparr>argos_available = False, translation_pairs = Map.empty\<rparr> sample_world
     (u ''kumusta'') (u ''tl'') (u ''ko'') True \<and>
   snd (translate \<lparr>argos_available = False, translation_pairs = Map.empty\<rparr> sample_world
     (u ''kumusta'') (u ''tl'') (u ''ko'') True) = Inr (not_available (u ''tl'') (u ''ko'')) \<and>
   detect (str_lower sample_world) \<lparr>model = None\<rparr> (u ''hello'') = u ''en'' \<and>
   all_methods_failed \<lparr>argos_available = False, translation_pairs = Map.empty\<rparr> sample_world
     (u ''hello'') (u ''en'') (u ''ko'') False \<and>
   snd (translate \<lparr>argos_available = False, translation_pairs = Map.empty\<rparr> sample_world
     (u ''hello'') (u ''auto'') (u ''ko'') False) = Inr (not_available (u ''en'') (u ''ko'')) \<and>
   snd (translate \<lparr>argos_available = False, translation_pairs = Map.empty\<rparr> sample_world
     (u ''hello'') (u ''ko'') (u ''ko'') False) = Inr (not_available (u ''en'') (u ''ko''))"
  using translate_soft_failure
      [of "\<lparr>argos_available = False, translation_pairs = Map.empty\<rparr>" sample_world
         "u ''kumusta''" "u ''tl''" "u ''ko''" True]
    translate_soft_failure
      [of "\<lparr>argos_available = False, translation_pairs = Map.empty\<rparr>" sample_world
         "u ''hello''" "u ''auto''" "u ''ko''" False]
    translate_soft_failure
      [of "\<lparr>argos_available = False, translation_pairs = Map.empty\<rparr>" sample_world
         "u ''hello''" "u ''ko''" "u ''ko''" False]
  by (simp add: all_methods_failed_def try_online_def sample_world_def detect_hello
      blank_samples u_eq_iff)

text \<open>
  C3 as stated fails on the language pair of the message: a request from Tagalog to
  Tagalog for an English text, with no engine at all, returns the message for English to
  Tagalog, which is not the requested pair.
\<close>

theorem translate_soft_failure_counterexample:
  "snd (translate \<lparr>argos_available = False, translation_pairs = Map.empty\<rparr> sample_world
     (u ''hello'') (u ''tl'') (u ''tl'') False) = Inr (not_available (u ''en'') (u ''tl'')) \<and>
   not_available (u ''en'') (u ''tl'') \<noteq> not_available (u ''tl'') (u ''tl'')"
  by (simp add: translate_def resolve_from_def try_online_def sample_world_def detect_hello
      blank_samples not_available_u u_eq_iff)

text \<open>
  C4 (amended). A request whose source is \<^verbatim>\<open>auto\<close> or equals the target L: a blank text
  gives the empty text; otherwise the detection step is run, also when the source equals
  the target, and when it resolves the text to L (the language the detector finds, or
  English when the detector cannot be made) the text is returned unchanged with no engine
  call; when it resolves the text to another language D, the request goes on as the
  translation of the text from D to L.
\<close>

theorem translate_same_language:
  assumes "from_lang = u ''auto'' \<or> from_lang = L"
  shows "translate self w text from_lang L online =
     (if blank text then ([], Inr [])
      else case LanguageDetector w of
             Inl e \<Rightarrow>
               (if L = u ''en'' then ([], Inr text)
                else translate self w text (u ''en'') L online)
           | Inr detector \<Rightarrow>
               (if detect (str_lower w) detector text = L then ([], Inr text)
                else translate self w text (detect (str_lower w) detector text) L online))"
proof (cases "LanguageDetector w")
  case (Inl e)
  then have r: "resolve_from w text from_lang L = u ''en''"
    using assms by (auto simp add: resolve_from_def)
  have r': "resolve_from w text (u ''en'') L = u ''en''"
    using Inl by (simp add: resolve_from_def)
  show ?thesis
    by (simp add: translate_def r r' Inl Let_def)
next
  case (Inr detector)
  then have r: "resolve_from w text from_lang L = detect (str_lower w) detector text"
    using assms by (auto simp add: resolve_from_def)
  have r': "resolve_from w text (detect (str_lower w) detector text) L =
      detect (str_lower w) detector text"
    using Inr by (simp add: resolve_from_def)
  show ?thesis
    by (simp add: translate_def r r' Inr Let_def)
qed

theorem translate_same_language_witness:
  "translate \<lparr>argos_available = False, translation_pairs = Map.empty\<rparr> sample_world
     (u ''hello'') (u ''en'') (u ''en'') True = ([], Inr (u ''hello'')) \<and>
   translate \<lparr>argos_available = False, translation_pairs = Map.empty\<rparr> sample_world
     (u ''hello'') (u ''auto'') (u ''en'') False = ([], Inr (u ''hello'')) \<and>
   translate \<lparr>argos_available = False, translation_pairs = Map.empty\<rparr> sample_world
     (u ''hello'') (u ''tl'') (u ''tl'') False =
   translate \<lparr>argos_available = False, translation_pairs = Map.empty\<rparr> sample_world
     (u ''hello'') (u ''en'') (u ''tl'') False"
  using translate_same_language
      [of "u ''en''" "u ''en''"
         "\<lparr>argos_available = False, translation_pairs = Map.empty\<rparr>" sample_world
         "u ''hello''" True]
    translate_same_language
      [of "u ''auto''" "u ''en''"
         "\<lparr>argos_available = False, translation_pairs = Map.empty\<rparr>" sample_world
         "u ''hello''" False]
    translate_same_language
      [of "u ''tl''" "u ''tl''"
         "\<lparr>argos_available = False, translation_pairs = Map.empty\<rparr>" sample_world
         "u ''hello''" False]
  by (simp add: sample_world_def detect_hello blank_samples u_eq_iff)

text \<open>
  C4 as stated fails: a request from Korean to Korean for an English text is resolved to
  English and sent on for translation (here to a registered English to Korean engine),
  and a text of one space is returned as the empty text.
\<close>

theorem translate_same_language_counterexample:
  "translate
     \<lparr>argos_available = True,
      translation_pairs = [pair_key (u ''en'') (u ''ko'') \<mapsto> tag_engine (u ''ko:'')]\<rparr>
     sample_world (u ''hello'') (u ''ko'') (u ''ko'') False =
     ([OfflineCall (pair_key (u ''en'') (u ''ko'')) (u ''hello'')], Inr (u ''ko:hello'')) \<and>
   translate \<lparr>argos_available = False, translation_pairs = Map.empty\<rparr> sample_world
     (u '' '') (u ''en'') (u ''en'') False = ([], Inr [])"
  by (simp add: translate_def resolve_from_def try_online_def offline_block_def
      sample_world_def detect_hello blank_samples tag_engine_def u_eq_iff u_append)

subsection \<open>Capture sessions\<close>








lemma capturing_start:
  "record_audio sample_kaldi (initial_service [(u ''en'', u ''vosk-model-small-en-us'')])
     (Some sample_callback) (u ''en'') = (capturing, Inr True)"
  by (simp add: capturing_def record_audio_def initial_service_def create_recognizer_def
      sample_kaldi_def start_thread_def RATE_def)

lemma capturing_reachable: "reachable sample_kaldi capturing"
  using reachable.start [OF reachable.init,
      of sample_kaldi "[(u ''en'', u ''vosk-model-small-en-us'')]" "Some sample_callback"
        "u ''en''"]
  by (simp add: capturing_start)


text \<open>
  The thread of a session that has cleared the flag can still be closing its stream when
  the next session starts: the module then has two threads, the older one \<open>Closing\<close> and
  the new one \<open>Capturing\<close>.
\<close>

lemma closing_thread_overlap:
  "reachable sample_kaldi
     (fst (record_audio sample_kaldi (finally_clear 0 capturing) None (u ''en''))) \<and>
   snd (record_audio sample_kaldi (finally_clear 0 capturing) None (u ''en'')) = Inr True \<and>
   map th_phase
     (threads (fst (record_audio sample_kaldi (finally_clear 0 capturing) None (u ''en'')))) =
     [Closing, Capturing]"
proof -
  have "reachable sample_kaldi (finally_clear 0 capturing)"
    by (rule reachable.clear [OF capturing_reachable]) (simp_all add: capturing_def)
  then have "reachable sample_kaldi
      (fst (record_audio sample_kaldi (finally_clear 0 capturing) None (u ''en'')))"
    by (rule reachable.start)
  then show ?thesis
    by (simp add: record_audio_def finally_clear_def capturing_def start_thread_def)
qed



















subsection \<open>Timers\<close>

lemma consistent_iff:
  "consistent self \<longleftrightarrow> (\<forall>i. pending_silence self i \<longrightarrow> silence_timer self = Some i)"
  by (auto simp add: consistent_def list_all_iff pending_silence_def)

lemma expires_after_iff:
  "expires_after self T \<longleftrightarrow>
     (\<forall>i. pending_silence self i \<longrightarrow> T < deadline (timers self ! i))"
  by (auto simp add: expires_after_def list_all_iff pending_silence_def)

lemma finished_update: "finished t \<Longrightarrow> t\<lparr>finished := True\<rparr> = t"
  by (cases t) simp

lemma fire_timers:
  "timers (fire i self) = (timers self)[i := (timers self ! i)\<lparr>finished := True\<rparr>]"
  by (simp add: fire_def Let_def finished_update)

lemma fire_keeps:
  "silence_timer (fire i self) = silence_timer self"
  "on_silence_callback (fire i self) = on_silence_callback self"
  "silence_timeout (fire i self) = silence_timeout self"
  "clock (fire i self) = clock self"
  by (simp_all add: fire_def Let_def)

text \<open>The silence events one Timer adds when it fires.\<close>

lemma fire_log:
  assumes "i < length (timers self)"
  shows "silence_events (log (fire i self)) =
     silence_events (log self) @
     (if pending_silence self i
      then Fired SilenceTimer (deadline (timers self ! i)) #
             callback_events SilenceTimer (on_silence_callback self)
               (deadline (timers self ! i))
      else [])"
proof (cases "finished (timers self ! i)")
  case True
  then show ?thesis
    by (simp add: fire_def pending_silence_def)
next
  case False
  show ?thesis
  proof (cases "target (timers self ! i)")
    case SilenceTimer
    with False assms show ?thesis
      by (simp add: fire_def Let_def pending_silence_def silence_events_def
          callback_events_def split: option.splits)
  next
    case InactivityTimer
    with False assms show ?thesis
      by (simp add: fire_def Let_def pending_silence_def silence_events_def
          callback_events_def split: option.splits)
  qed
qed

lemma pending_fire:
  "pending_silence (fire j self) i \<longleftrightarrow> pending_silence self i \<and> i \<noteq> j"
proof (cases "i = j")
  case True
  then show ?thesis
    by (simp add: pending_silence_def fire_timers)
next
  case False
  then show ?thesis
    by (simp add: pending_silence_def fire_timers)
qed

lemma fire_nth: "i \<noteq> j \<Longrightarrow> timers (fire j self) ! i = timers self ! i"
  by (simp add: fire_timers)

lemma fire_length: "length (timers (fire j self)) = length (timers self)"
  by (simp add: fire_timers)

text \<open>Firing Timers none of which is a pending silence Timer adds no silence event.\<close>

lemma fold_fire_none:
  assumes "\<forall>i \<in> set js. i < length (timers self) \<and> \<not> pending_silence self i"
  shows "silence_events (log (fold fire js self)) = silence_events (log self)"
  using assms
proof (induction js arbitrary: self)
  case Nil
  then show ?case by simp
next
  case (Cons j js)
  have "\<forall>i \<in> set js. i < length (timers (fire j self)) \<and> \<not> pending_silence (fire j self) i"
    using Cons.prems by (simp add: fire_length pending_fire)
  then have "silence_events (log (fold fire js (fire j self))) =
      silence_events (log (fire j self))"
    by (rule Cons.IH)
  moreover have "silence_events (log (fire j self)) = silence_events (log self)"
    using Cons.prems by (simp add: fire_log)
  ultimately show ?case by simp
qed

lemma fold_fire_pending:
  "pending_silence (fold fire js self) i \<longleftrightarrow> pending_silence self i \<and> i \<notin> set js"
  by (induction js arbitrary: self) (auto simp add: pending_fire)

lemma fold_fire_keeps:
  "silence_timer (fold fire js self) = silence_timer self"
  "on_silence_callback (fold fire js self) = on_silence_callback self"
  "silence_timeout (fold fire js self) = silence_timeout self"
  "clock (fold fire js self) = clock self"
  "length (timers (fold fire js self)) = length (timers self)"
  by (induction js arbitrary: self) (simp_all add: fire_keeps fire_length)

lemma fold_fire_nth:
  "i \<notin> set js \<Longrightarrow> timers (fold fire js self) ! i = timers self ! i"
  by (induction js arbitrary: self) (simp_all add: fire_nth)

text \<open>
  Firing distinct Timers of which \<open>k\<close> is the only pending silence Timer adds the silence
  events of \<open>k\<close>, if \<open>k\<close> is among them.
\<close>

lemma fold_fire_one:
  assumes dist: "distinct js" and len: "\<forall>i \<in> set js. i < length (timers self)"
    and pend: "\<forall>i. pending_silence self i \<longleftrightarrow> i = k"
  shows "silence_events (log (fold fire js self)) =
     silence_events (log self) @
     (if k \<in> set js
      then Fired SilenceTimer (deadline (timers self ! k)) #
             callback_events SilenceTimer (on_silence_callback self)
               (deadline (timers self ! k))
      else [])"
  using assms
proof (induction js arbitrary: self)
  case Nil
  then show ?case by simp
next
  case (Cons j js)
  have pk: "pending_silence self i \<longleftrightarrow> i = k" for i
    using Cons.prems(3) by blast
  have lj: "j < length (timers self)"
    using Cons.prems(2) by simp
  show ?case
  proof (cases "j = k")
    case True
    have rest: "\<forall>i \<in> set js. i < length (timers (fire j self)) \<and>
        \<not> pending_silence (fire j self) i"
    proof
      fix i
      assume "i \<in> set js"
      then have "i < length (timers self)"
        using Cons.prems(2) by simp
      moreover have "\<not> pending_silence (fire j self) i"
        by (simp add: pending_fire pk True)
      ultimately show "i < length (timers (fire j self)) \<and> \<not> pending_silence (fire j self) i"
        by (simp add: fire_length)
    qed
    have tail: "silence_events (log (fold fire js (fire j self))) =
        silence_events (log (fire j self))"
      using rest by (rule fold_fire_none)
    have head: "silence_events (log (fire j self)) =
        silence_events (log self) @
        Fired SilenceTimer (deadline (timers self ! k)) #
          callback_events SilenceTimer (on_silence_callback self) (deadline (timers self ! k))"
      using fire_log [OF lj] by (simp add: pk True)
    show ?thesis
      using tail head by (simp add: True)
  next
    case False
    have step: "silence_events (log (fire j self)) = silence_events (log self)"
      using fire_log [OF lj] False by (simp add: pk)
    have ih: "silence_events (log (fold fire js (fire j self))) =
       silence_events (log (fire j self)) @
       (if k \<in> set js
        then Fired SilenceTimer (deadline (timers (fire j self) ! k)) #
               callback_events SilenceTimer (on_silence_callback (fire j self))
                 (deadline (timers (fire j self) ! k))
        else [])"
    proof (rule Cons.IH)
      show "distinct js" using Cons.prems(1) by simp
      show "\<forall>i \<in> set js. i < length (timers (fire j self))"
        using Cons.prems(2) by (simp add: fire_length)
      show "\<forall>i. pending_silence (fire j self) i \<longleftrightarrow> i = k"
        using False by (auto simp add: pending_fire pk)
    qed
    have same: "timers (fire j self) ! k = timers self ! k"
      using False by (simp add: fire_nth)
    have kj: "k \<in> set (j # js) \<longleftrightarrow> k \<in> set js"
      using False by auto
    show ?thesis
      by (simp only: fold_simps ih step same fire_keeps kj)
  qed
qed

lemma due_set:
  "set (due T self) =
     {i. i < length (timers self) \<and> \<not> finished (timers self ! i) \<and>
         deadline (timers self ! i) \<le> T}"
  by (auto simp add: due_def)

lemma due_distinct: "distinct (due T self)"
  by (simp add: due_def)

lemma advance_keeps:
  "silence_timer (advance T self) = silence_timer self"
  "on_silence_callback (advance T self) = on_silence_callback self"
  "silence_timeout (advance T self) = silence_timeout self"
  "clock (advance T self) = max (clock self) T"
  "length (timers (advance T self)) = length (timers self)"
  by (simp_all add: advance_def fold_fire_keeps)

lemma advance_pending:
  "pending_silence (advance T self) i \<longleftrightarrow>
     pending_silence self i \<and> T < deadline (timers self ! i)"
proof -
  have t: "timers (advance T self) = timers (fold fire (due T self) self)"
    by (simp add: advance_def)
  have "pending_silence (advance T self) i \<longleftrightarrow>
      pending_silence (fold fire (due T self) self) i"
    by (simp add: pending_silence_def t)
  also have "\<dots> \<longleftrightarrow> pending_silence self i \<and> i \<notin> set (due T self)"
    by (rule fold_fire_pending)
  also have "\<dots> \<longleftrightarrow> pending_silence self i \<and> T < deadline (timers self ! i)"
    by (auto simp add: due_set pending_silence_def)
  finally show ?thesis .
qed

lemma advance_nth:
  assumes "pending_silence self i" and "T < deadline (timers self ! i)"
  shows "timers (advance T self) ! i = timers self ! i"
proof -
  have "i \<notin> set (due T self)"
    using assms(2) by (simp add: due_set)
  then show ?thesis
    by (simp add: advance_def fold_fire_nth)
qed

text \<open>Time passing while no pending silence Timer expires adds no silence event.\<close>

lemma advance_early:
  assumes "expires_after self T"
  shows "silence_events (log (advance T self)) = silence_events (log self)"
proof -
  have "\<forall>i \<in> set (due T self). i < length (timers self) \<and> \<not> pending_silence self i"
    using assms by (auto simp add: due_set expires_after_iff)
  then have "silence_events (log (fold fire (due T self) self)) = silence_events (log self)"
    by (rule fold_fire_none)
  then show ?thesis
    by (simp add: advance_def)
qed

lemma advance_consistent: "consistent self \<Longrightarrow> consistent (advance T self)"
  by (simp add: consistent_iff advance_pending advance_keeps)

text \<open>Time passing beyond the deadline of the only pending silence Timer.\<close>

lemma advance_late:
  assumes pend: "\<forall>i. pending_silence self i \<longleftrightarrow> i = k"
    and late: "deadline (timers self ! k) \<le> T"
  shows "silence_events (log (advance T self)) =
     silence_events (log self) @
     Fired SilenceTimer (deadline (timers self ! k)) #
       callback_events SilenceTimer (on_silence_callback self) (deadline (timers self ! k))"
proof -
  have pk: "pending_silence self k"
    using pend by blast
  have k: "k \<in> set (due T self)"
    using pk late by (simp add: due_set pending_silence_def)
  have "silence_events (log (fold fire (due T self) self)) =
     silence_events (log self) @
     (if k \<in> set (due T self)
      then Fired SilenceTimer (deadline (timers self ! k)) #
             callback_events SilenceTimer (on_silence_callback self)
               (deadline (timers self ! k))
      else [])"
  proof (rule fold_fire_one)
    show "distinct (due T self)" by (rule due_distinct)
    show "\<forall>i \<in> set (due T self). i < length (timers self)" by (simp add: due_set)
    show "\<forall>i. pending_silence self i \<longleftrightarrow> i = k" by (rule pend)
  qed
  then show ?thesis
    using k by (simp add: advance_def)
qed

text \<open>
  After \<^verbatim>\<open>reset_silence_timer\<close> the new Timer is the only pending silence Timer: the one
  referred to before is cancelled, and a consistent handler has no other.
\<close>

lemma cancel_length: "length (cancel ref ts) = length ts"
  by (simp add: cancel_def split: option.splits)

lemma cancel_nth:
  "i < length ts \<Longrightarrow>
     cancel ref ts ! i = (if ref = Some i then (ts ! i)\<lparr>finished := True\<rparr> else ts ! i)"
  by (auto simp add: cancel_def nth_list_update split: option.splits)

lemma reset_keeps:
  "log (reset_silence_timer self) = log self"
  "clock (reset_silence_timer self) = clock self"
  "silence_timeout (reset_silence_timer self) = silence_timeout self"
  "on_silence_callback (reset_silence_timer self) = on_silence_callback self"
  "silence_timer (reset_silence_timer self) = Some (length (timers self))"
  "length (timers (reset_silence_timer self)) = Suc (length (timers self))"
  "timers (reset_silence_timer self) ! length (timers self) =
     \<lparr>interval = silence_timeout self, started_at = clock self, target = SilenceTimer,
      finished = False\<rparr>"
  by (simp_all add: reset_silence_timer_def Let_def cancel_length nth_append)

lemma reset_pending:
  assumes "consistent self"
  shows "pending_silence (reset_silence_timer self) i \<longleftrightarrow> i = length (timers self)"
proof (cases "i < length (timers self)")
  case True
  have "timers (reset_silence_timer self) ! i = cancel (silence_timer self) (timers self) ! i"
    using True by (simp add: reset_silence_timer_def Let_def nth_append cancel_length)
  then have "\<not> pending_silence (reset_silence_timer self) i"
    using True assms
    by (auto simp add: pending_silence_def cancel_nth consistent_iff)
  with True show ?thesis by simp
next
  case False
  then show ?thesis
    by (auto simp add: pending_silence_def reset_keeps less_Suc_eq)
qed

lemma reset_consistent: "consistent self \<Longrightarrow> consistent (reset_silence_timer self)"
  by (simp add: consistent_iff reset_pending reset_keeps)

text \<open>
  The state between the calls of a train: the only pending silence Timer was started at
  \<open>t\<close> with the handler's silence timeout.
\<close>

lemma armed_early:
  assumes pend: "\<forall>i. pending_silence self i \<longleftrightarrow> i = k"
    and tk: "timers self ! k =
      \<lparr>interval = silence_timeout self, started_at = t, target = SilenceTimer,
       finished = False\<rparr>"
    and st: "0 \<le> silence_timeout self" and early: "T < t + silence_timeout self"
  shows "silence_events (log (advance T self)) = silence_events (log self)"
    and "\<forall>i. pending_silence (advance T self) i \<longleftrightarrow> i = k"
    and "timers (advance T self) ! k = timers self ! k"
proof -
  have dl: "deadline (timers self ! k) = t + silence_timeout self"
    using st by (simp add: tk deadline_def)
  have ex: "expires_after self T"
    using pend early by (simp add: expires_after_iff dl)
  show "silence_events (log (advance T self)) = silence_events (log self)"
    using ex by (rule advance_early)
  show "\<forall>i. pending_silence (advance T self) i \<longleftrightarrow> i = k"
    using pend early by (auto simp add: advance_pending dl)
  show "timers (advance T self) ! k = timers self ! k"
    using pend early by (simp add: advance_nth dl)
qed

lemma armed_late:
  assumes pend: "\<forall>i. pending_silence self i \<longleftrightarrow> i = k"
    and tk: "timers self ! k =
      \<lparr>interval = silence_timeout self, started_at = t, target = SilenceTimer,
       finished = False\<rparr>"
    and st: "0 \<le> silence_timeout self" and late: "t + silence_timeout self \<le> T"
  shows "silence_events (log (advance T self)) =
      silence_events (log self) @
      Fired SilenceTimer (t + silence_timeout self) #
        callback_events SilenceTimer (on_silence_callback self) (t + silence_timeout self)"
    and "\<forall>i. \<not> pending_silence (advance T self) i"
proof -
  have dl: "deadline (timers self ! k) = t + silence_timeout self"
    using st by (simp add: tk deadline_def)
  have "silence_events (log (advance T self)) =
     silence_events (log self) @
     Fired SilenceTimer (deadline (timers self ! k)) #
       callback_events SilenceTimer (on_silence_callback self) (deadline (timers self ! k))"
  proof (rule advance_late)
    show "\<forall>i. pending_silence self i \<longleftrightarrow> i = k" by (rule pend)
    show "deadline (timers self ! k) \<le> T" using late by (simp add: dl)
  qed
  then show "silence_events (log (advance T self)) =
      silence_events (log self) @
      Fired SilenceTimer (t + silence_timeout self) #
        callback_events SilenceTimer (on_silence_callback self) (t + silence_timeout self)"
    by (simp add: dl)
  show "\<forall>i. \<not> pending_silence (advance T self) i"
    using pend late by (auto simp add: advance_pending dl)
qed

lemma quiet_advance:
  assumes "\<forall>i. \<not> pending_silence self i"
  shows "silence_events (log (advance T self)) = silence_events (log self)"
proof -
  have "expires_after self T"
    using assms by (simp add: expires_after_iff)
  then show ?thesis by (rule advance_early)
qed

text \<open>
  A train of resets from a state just after a reset: each call cancels the Timer of the
  call before in time, and leaves its own as the only pending one.
\<close>

lemma resets_armed:
  assumes "consistent self" and "0 \<le> silence_timeout self"
    and "\<forall>i. pending_silence self i \<longleftrightarrow> i = k"
    and "timers self ! k =
      \<lparr>interval = silence_timeout self, started_at = clock self, target = SilenceTimer,
       finished = False\<rparr>"
    and "\<forall>d \<in> set ds. 0 \<le> d \<and> d < silence_timeout self"
  shows "\<exists>k'. consistent (resets ds self) \<and>
         (\<forall>i. pending_silence (resets ds self) i \<longleftrightarrow> i = k') \<and>
         timers (resets ds self) ! k' =
           \<lparr>interval = silence_timeout self, started_at = clock (resets ds self),
            target = SilenceTimer, finished = False\<rparr> \<and>
         silence_events (log (resets ds self)) = silence_events (log self) \<and>
         clock (resets ds self) = clock self + sum_list ds \<and>
         silence_timeout (resets ds self) = silence_timeout self \<and>
         on_silence_callback (resets ds self) = on_silence_callback self"
  using assms
proof (induction ds arbitrary: self k)
  case Nil
  then show ?case
    by (intro exI [of _ k]) simp
next
  case (Cons d ds)
  let ?a = "advance (clock self + d) self"
  let ?r = "reset_silence_timer ?a"
  from Cons.prems(5) have d: "0 \<le> d" "d < silence_timeout self" by simp_all
  have early: "silence_events (log ?a) = silence_events (log self)"
    using armed_early(1) [OF Cons.prems(3) Cons.prems(4) Cons.prems(2)] d by simp
  have ca: "consistent ?a"
    using Cons.prems(1) by (rule advance_consistent)
  have cr: "consistent ?r"
    using ca by (rule reset_consistent)
  have clock_a: "clock ?a = clock self + d"
    using d by (simp add: advance_keeps max_absorb2)
  have keep: "silence_timeout ?r = silence_timeout self"
    "silence_events (log ?r) = silence_events (log self)"
    "clock ?r = clock self + d" "on_silence_callback ?r = on_silence_callback self"
    by (simp_all add: reset_keeps advance_keeps(1-3,5) early clock_a)
  have pr: "\<forall>i. pending_silence ?r i \<longleftrightarrow> i = length (timers ?a)"
    using ca by (simp add: reset_pending)
  have tr: "timers ?r ! length (timers ?a) =
      \<lparr>interval = silence_timeout ?r, started_at = clock ?r, target = SilenceTimer,
       finished = False\<rparr>"
    by (simp only: reset_keeps(2,3,7))
  have ih: "\<exists>k'. consistent (resets ds ?r) \<and>
         (\<forall>i. pending_silence (resets ds ?r) i \<longleftrightarrow> i = k') \<and>
         timers (resets ds ?r) ! k' =
           \<lparr>interval = silence_timeout ?r, started_at = clock (resets ds ?r),
            target = SilenceTimer, finished = False\<rparr> \<and>
         silence_events (log (resets ds ?r)) = silence_events (log ?r) \<and>
         clock (resets ds ?r) = clock ?r + sum_list ds \<and>
         silence_timeout (resets ds ?r) = silence_timeout ?r \<and>
         on_silence_callback (resets ds ?r) = on_silence_callback ?r"
  proof (rule Cons.IH)
    show "consistent ?r" by (rule cr)
    show "0 \<le> silence_timeout ?r" using Cons.prems(2) by (simp only: keep)
    show "\<forall>i. pending_silence ?r i \<longleftrightarrow> i = length (timers ?a)" by (rule pr)
    show "timers ?r ! length (timers ?a) =
      \<lparr>interval = silence_timeout ?r, started_at = clock ?r, target = SilenceTimer,
       finished = False\<rparr>" by (rule tr)
    show "\<forall>d \<in> set ds. 0 \<le> d \<and> d < silence_timeout ?r"
      using Cons.prems(5) by (simp add: keep)
  qed
  from ih obtain k' where k':
    "consistent (resets ds ?r)"
    "\<forall>i. pending_silence (resets ds ?r) i \<longleftrightarrow> i = k'"
    "timers (resets ds ?r) ! k' =
       \<lparr>interval = silence_timeout ?r, started_at = clock (resets ds ?r),
        target = SilenceTimer, finished = False\<rparr>"
    "silence_events (log (resets ds ?r)) = silence_events (log ?r)"
    "clock (resets ds ?r) = clock ?r + sum_list ds"
    "silence_timeout (resets ds ?r) = silence_timeout ?r"
    "on_silence_callback (resets ds ?r) = on_silence_callback ?r"
    by blast
  have unfold: "resets (d # ds) self = resets ds ?r"
    by simp
  show ?case
    unfolding unfold
    by (intro exI [of _ k'] conjI) (simp_all add: k' keep add.assoc)
qed

lemma rapid_resets:
  assumes "consistent self" and "0 \<le> silence_timeout self" and "0 \<le> d"
    and "expires_after self (clock self + d)"
    and "\<forall>x \<in> set ds. 0 \<le> x \<and> x < silence_timeout self"
  shows "\<exists>k. (\<forall>i. pending_silence (resets (d # ds) self) i \<longleftrightarrow> i = k) \<and>
         timers (resets (d # ds) self) ! k =
           \<lparr>interval = silence_timeout self, started_at = clock (resets (d # ds) self),
            target = SilenceTimer, finished = False\<rparr> \<and>
         silence_events (log (resets (d # ds) self)) = silence_events (log self) \<and>
         clock (resets (d # ds) self) = clock self + d + sum_list ds \<and>
         silence_timeout (resets (d # ds) self) = silence_timeout self \<and>
         on_silence_callback (resets (d # ds) self) = on_silence_callback self"
proof -
  let ?a = "advance (clock self + d) self"
  let ?r = "reset_silence_timer ?a"
  have early: "silence_events (log ?a) = silence_events (log self)"
    using assms(4) by (rule advance_early)
  have ca: "consistent ?a"
    using assms(1) by (rule advance_consistent)
  have cr: "consistent ?r"
    using ca by (rule reset_consistent)
  have clock_a: "clock ?a = clock self + d"
    using assms(3) by (simp add: advance_keeps max_absorb2)
  have keep: "silence_timeout ?r = silence_timeout self"
    "silence_events (log ?r) = silence_events (log self)"
    "clock ?r = clock self + d" "on_silence_callback ?r = on_silence_callback self"
    by (simp_all add: reset_keeps advance_keeps(1-3,5) early clock_a)
  have pr: "\<forall>i. pending_silence ?r i \<longleftrightarrow> i = length (timers ?a)"
    using ca by (simp add: reset_pending)
  have tr: "timers ?r ! length (timers ?a) =
      \<lparr>interval = silence_timeout ?r, started_at = clock ?r, target = SilenceTimer,
       finished = False\<rparr>"
    by (simp only: reset_keeps(2,3,7))
  have ih: "\<exists>k'. consistent (resets ds ?r) \<and>
         (\<forall>i. pending_silence (resets ds ?r) i \<longleftrightarrow> i = k') \<and>
         timers (resets ds ?r) ! k' =
           \<lparr>interval = silence_timeout ?r, started_at = clock (resets ds ?r),
            target = SilenceTimer, finished = False\<rparr> \<and>
         silence_events (log (resets ds ?r)) = silence_events (log ?r) \<and>
         clock (resets ds ?r) = clock ?r + sum_list ds \<and>
         silence_timeout (resets ds ?r) = silence_timeout ?r \<and>
         on_silence_callback (resets ds ?r) = on_silence_callback ?r"
  proof (rule resets_armed)
    show "consistent ?r" by (rule cr)
    show "0 \<le> silence_timeout ?r" using assms(2) by (simp only: keep)
    show "\<forall>i. pending_silence ?r i \<longleftrightarrow> i = length (timers ?a)" by (rule pr)
    show "timers ?r ! length (timers ?a) =
      \<lparr>interval = silence_timeout ?r, started_at = clock ?r, target = SilenceTimer,
       finished = False\<rparr>" by (rule tr)
    show "\<forall>d \<in> set ds. 0 \<le> d \<and> d < silence_timeout ?r"
      using assms(5) by (simp only: keep)
  qed
  from ih obtain k' where k':
    "consistent (resets ds ?r)"
    "\<forall>i. pending_silence (resets ds ?r) i \<longleftrightarrow> i = k'"
    "timers (resets ds ?r) ! k' =
       \<lparr>interval = silence_timeout ?r, started_at = clock (resets ds ?r),
        target = SilenceTimer, finished = False\<rparr>"
    "silence_events (log (resets ds ?r)) = silence_events (log ?r)"
    "clock (resets ds ?r) = clock ?r + sum_list ds"
    "silence_timeout (resets ds ?r) = silence_timeout ?r"
    "on_silence_callback (resets ds ?r) = on_silence_callback ?r"
    by blast
  have unfold: "resets (d # ds) self = resets ds ?r"
    by simp
  show ?thesis
    unfolding unfold
    by (intro exI [of _ k'] conjI) (simp_all add: k' keep)
qed

text \<open>
  C8. Take a consistent handler with a non-negative silence timeout, and a train of
  \<open>N \<ge> 1\<close> calls of \<^verbatim>\<open>reset_silence_timer\<close>: the first after a delay in which no silence
  timer armed earlier expires, each later one before the timer armed by the call before
  it expires. During the train no silence timeout fires. As time then passes to any \<open>T\<close>,
  the silence timeout has fired exactly once if \<open>T\<close> has reached the time of the last
  call plus \<^verbatim>\<open>silence_timeout\<close>, at that time and with the registered callback called
  once if there is one, and not at all before. Time passing further adds no second
  firing.
\<close>

theorem rapid_resets_fire_once:
  assumes "consistent self" and "0 \<le> silence_timeout self" and "0 \<le> d"
    and "expires_after self (clock self + d)"
    and "\<forall>x \<in> set ds. 0 \<le> x \<and> x < silence_timeout self"
  shows "clock (resets (d # ds) self) = clock self + d + sum_list ds \<and>
    silence_events (log (resets (d # ds) self)) = silence_events (log self) \<and>
    (\<forall>T. silence_events (log (advance T (resets (d # ds) self))) =
       silence_events (log self) @
       (if clock (resets (d # ds) self) + silence_timeout self \<le> T
        then Fired SilenceTimer (clock (resets (d # ds) self) + silence_timeout self) #
               callback_events SilenceTimer (on_silence_callback self)
                 (clock (resets (d # ds) self) + silence_timeout self)
        else [])) \<and>
    (\<forall>T T'. silence_events (log (advance T' (advance T (resets (d # ds) self)))) =
       silence_events (log (advance (max T T') (resets (d # ds) self))))"
proof -
  let ?s = "resets (d # ds) self"
  from rapid_resets [OF assms] obtain k where
    pend: "\<forall>i. pending_silence ?s i \<longleftrightarrow> i = k"
    and tk0: "timers ?s ! k =
           \<lparr>interval = silence_timeout self, started_at = clock ?s,
            target = SilenceTimer, finished = False\<rparr>"
    and lg: "silence_events (log ?s) = silence_events (log self)"
    and ck: "clock ?s = clock self + d + sum_list ds"
    and st: "silence_timeout ?s = silence_timeout self"
    and cb: "on_silence_callback ?s = on_silence_callback self"
    by blast
  have tk: "timers ?s ! k =
           \<lparr>interval = silence_timeout ?s, started_at = clock ?s,
            target = SilenceTimer, finished = False\<rparr>"
    by (simp only: tk0 st)
  have st0: "0 \<le> silence_timeout ?s"
    using assms(2) by (simp only: st)
  let ?fired = "Fired SilenceTimer (clock ?s + silence_timeout self) #
      callback_events SilenceTimer (on_silence_callback self) (clock ?s + silence_timeout self)"
  have late: "silence_events (log (advance T ?s)) = silence_events (log self) @ ?fired"
    if "clock ?s + silence_timeout self \<le> T" for T
  proof -
    have "clock ?s + silence_timeout ?s \<le> T"
      using that by (simp only: st)
    from armed_late(1) [OF pend tk st0 this] show ?thesis
      by (simp only: st cb lg)
  qed
  have early: "silence_events (log (advance T ?s)) = silence_events (log self)"
    if "\<not> clock ?s + silence_timeout self \<le> T" for T
  proof -
    have "T < clock ?s + silence_timeout ?s"
      using that by (simp add: st del: resets.simps)
    from armed_early(1) [OF pend tk st0 this] show ?thesis
      by (simp only: lg)
  qed
  have once: "silence_events (log (advance T ?s)) =
       silence_events (log self) @
       (if clock ?s + silence_timeout self \<le> T then ?fired else [])" for T
    using late [of T] early [of T] by (cases "clock ?s + silence_timeout self \<le> T") simp_all
  have again: "silence_events (log (advance T' (advance T ?s))) =
      silence_events (log (advance (max T T') ?s))" for T T'
  proof (cases "clock ?s + silence_timeout self \<le> T")
    case True
    then have "clock ?s + silence_timeout ?s \<le> T"
      by (simp only: st)
    from armed_late(2) [OF pend tk st0 this]
    have "silence_events (log (advance T' (advance T ?s))) =
        silence_events (log (advance T ?s))"
      by (rule quiet_advance)
    moreover have "clock ?s + silence_timeout self \<le> max T T'"
      using True by simp
    ultimately show ?thesis
      using True by (simp only: once if_True)
  next
    case False
    then have lt: "T < clock ?s + silence_timeout ?s"
      by (simp add: st del: resets.simps)
    let ?a = "advance T ?s"
    have pa: "\<forall>i. pending_silence ?a i \<longleftrightarrow> i = k"
      by (rule armed_early(2) [OF pend tk st0 lt])
    have ta: "timers ?a ! k =
           \<lparr>interval = silence_timeout ?a, started_at = clock ?s,
            target = SilenceTimer, finished = False\<rparr>"
      using armed_early(3) [OF pend tk st0 lt] by (simp add: tk advance_keeps del: resets.simps)
    have sa: "0 \<le> silence_timeout ?a"
      using st0 by (simp add: advance_keeps del: resets.simps)
    have la: "silence_events (log ?a) = silence_events (log self)"
      using early [OF False] .
    have "silence_events (log (advance T' ?a)) =
       silence_events (log self) @
       (if clock ?s + silence_timeout self \<le> T' then ?fired else [])"
    proof (cases "clock ?s + silence_timeout self \<le> T'")
      case True
      then have "clock ?s + silence_timeout ?a \<le> T'"
        by (simp add: advance_keeps st del: resets.simps)
      from armed_late(1) [OF pa ta sa this] show ?thesis
        using True by (simp add: advance_keeps st cb la del: resets.simps)
    next
      case False
      then have "T' < clock ?s + silence_timeout ?a"
        by (simp add: advance_keeps st del: resets.simps)
      from armed_early(1) [OF pa ta sa this] show ?thesis
        using False by (simp add: la del: resets.simps)
    qed
    moreover have "clock ?s + silence_timeout self \<le> max T T' \<longleftrightarrow>
        clock ?s + silence_timeout self \<le> T'"
      using False by auto
    ultimately show ?thesis
      by (simp only: once)
  qed
  from ck lg once again show ?thesis
    by (simp del: resets.simps)
qed

lemma sample_handler_ready:
  "consistent sample_handler" "expires_after sample_handler (clock sample_handler + 0)"
  "silence_timeout sample_handler = 5" "clock sample_handler = 0"
  "log sample_handler = []" "on_silence_callback sample_handler = Some 7"
  by (simp_all add: sample_handler_def reset_inactivity_timer_def set_silence_callback_def
      TimeoutHandler_def cancel_def consistent_def expires_after_def pending_silence_def)

theorem rapid_resets_fire_once_witness:
  "consistent sample_handler \<and>
   clock (resets [0, 1, 2] sample_handler) = 3 \<and>
   silence_events (log (advance 7 (resets [0, 1, 2] sample_handler))) = [] \<and>
   silence_events (log (advance 8 (resets [0, 1, 2] sample_handler))) =
     [Fired SilenceTimer 8, Called SilenceTimer 7 8] \<and>
   silence_events (log (advance 100 (advance 8 (resets [0, 1, 2] sample_handler)))) =
     [Fired SilenceTimer 8, Called SilenceTimer 7 8]"
  using rapid_resets_fire_once [of sample_handler 0 "[1, 2]"] sample_handler_ready
  by (simp add: callback_events_def silence_events_def del: resets.simps)

subsection \<open>Assistant service\<close>

lemma translate_response_returns:
  "\<exists>t. translate_response env g english_response response_lang = Inr t"
  using translate_returns by (simp add: translate_response_def split: option.splits)

text \<open>
  C9. When the pipeline has reached the speech step (the assistant was obtained, it
  answered, and the answer was translated) and the synthesizer raises, the response
  carries the translated answer as its text, no audio and no error. The translation step
  itself never raises.
\<close>

theorem tts_failure_swallowed:
  assumes "get_ai_assistant env g = (g', Inr (Some generate_response))"
    and "generate_response english_query (u ''en'') = Inr english_response"
    and "translate_response env g' english_response response_lang = Inr translated"
    and "tts_g g' = Some speak"
    and "speak translated response_lang = Inl e"
  shows "process_query_sync env g english_query source_lang response_lang =
     (g', \<lparr>response_text = translated, audio = None, source_language = source_lang,
           target_language = response_lang, error = None\<rparr>) \<and>
     (\<forall>r l. \<exists>t. translate_response env g' r l = Inr t)"
  using assms translate_response_returns
  by (simp add: process_query_sync_def process_query_try_def synthesize_def)

lemma blank_noon: "\<not> blank (u ''It is noon.'')"
  by (simp add: blank_def strip_def isspace_def u_def)

lemma sample_translate_response:
  "translate_response sample_assistant_env sample_globals (u ''It is noon.'') (u ''tl'') =
     Inr (u ''tl:It is noon.'')"
  by (simp add: translate_response_def sample_assistant_env_def sample_globals_def
      translate_def resolve_from_def try_online_def offline_block_def blank_noon
      tag_engine_def u_eq_iff u_append)

theorem tts_failure_swallowed_witness:
  "process_query_sync sample_assistant_env sample_globals (u ''What time is it?'') (u ''en'')
     (u ''tl'') =
   (sample_globals,
    \<lparr>response_text = u ''tl:It is noon.'', audio = None, source_language = u ''en'',
     target_language = u ''tl'', error = None\<rparr>)"
  using tts_failure_swallowed
      [where env = sample_assistant_env and g = sample_globals and g' = sample_globals
         and generate_response = sample_assistant and english_query = "u ''What time is it?''"
         and english_response = "u ''It is noon.''" and response_lang = "u ''tl''"
         and translated = "u ''tl:It is noon.''" and speak = failing_speaker
         and e = "Exn (u ''piper crashed'')" and source_lang = "u ''en''"]
    sample_translate_response
  by (simp add: get_ai_assistant_def sample_globals_def sample_assistant_def
      failing_speaker_def)

subsection \<open>Speech recognizer\<close>

text \<open>
  The text a call of \<open>recognize_with\<close> returns: the recognizer kept for the language is
  fed the audio after what it has heard, or one is built from the language's model; an
  exception while building or asking it gives the error text.
\<close>

lemma recognize_with_text:
  "snd (recognize_with env s audio_data l) =
     (case recognizers s l of
        Some (r, heard) \<Rightarrow>
          (case decode env (rec_model r) (heard @ [audio_data]) of
             Inl e \<Rightarrow> recognition_error
           | Inr d \<Rightarrow> answer_text d)
      | None \<Rightarrow>
          (case sr_models s l of
             None \<Rightarrow> recognition_error
           | Some m \<Rightarrow>
               (case KaldiRecognizer env m 16000 of
                  Inl e \<Rightarrow> recognition_error
                | Inr r \<Rightarrow>
                    (case decode env (rec_model r) [audio_data] of
                       Inl e \<Rightarrow> recognition_error
                     | Inr d \<Rightarrow> answer_text d))))"
proof (cases "recognizers s l")
  case (Some kept)
  obtain r heard where kept: "kept = (r, heard)"
    by (cases kept)
  show ?thesis
    by (cases "decode env (rec_model r) (heard @ [audio_data])")
       (simp_all add: recognize_with_def answer_text_def Let_def Some kept
          split: decoded.splits option.splits)
next
  case None
  show ?thesis
  proof (cases "sr_models s l")
    case no_model: None
    with None show ?thesis
      by (simp add: recognize_with_def)
  next
    case (Some m)
    show ?thesis
    proof (cases "KaldiRecognizer env m 16000")
      case (Inl e)
      with None Some show ?thesis
        by (simp add: recognize_with_def)
    next
      case (Inr r)
      show ?thesis
        by (cases "decode env (rec_model r) [audio_data]")
           (simp_all add: recognize_with_def answer_text_def Let_def None Some Inr
              split: decoded.splits option.splits)
    qed
  qed
qed

lemma recognize_offline_returns:
  assumes "snd (download_model env self language) = None"
  shows "\<exists>s. snd (recognize_offline env self audio_data language) = Inr s"
  using assms
  by (auto simp add: recognize_offline_def split: prod.splits option.splits)

lemma download_model_returns:
  "makedirs env = None \<Longrightarrow> snd (download_model env self language) = None"
  by (simp add: download_model_def Let_def split: option.splits)

text \<open>
  C10 (amended). For an offline call of \<^verbatim>\<open>recognize\<close> (online not asked, or the online
  service raised): without the backend library it returns
  \<^verbatim>\<open>[Speech recognition unavailable]\<close>; with the model of the requested language loaded
  it uses that model. Otherwise it first tries to download and load that model: for a
  language with a model URL, once the models directory is there, the path
  \<^verbatim>\<open>vosk-model-<language>\<close> under it is recorded for the language, and the model is loaded
  from that path when the path exists or the download to it succeeds. When the model has
  been loaded in this way, the call uses it; else it uses the English model if one is
  loaded, else it returns \<^verbatim>\<open>[Speech recognition model not available]\<close>. A language
  without a model URL goes to the English model or the message at once. A model is used
  through the recognizer kept for its language, built from the model when there is none
  yet and fed the audio, and an exception while building or asking it gives
  \<^verbatim>\<open>[Speech recognition error]\<close>. Whenever the download attempt returns, as it does when
  the models directory can be made, the call returns a text and does not raise.
\<close>

theorem recognize_fallbacks:
  assumes "\<not> online \<or> (\<exists>e. recognize_online env audio_data language = Inl e)"
  shows
    "(\<not> vosk_available self \<longrightarrow>
        recognize env self audio_data language online = (self, Inr unavailable)) \<and>
     (vosk_available self \<and> language \<in> dom (sr_models self) \<longrightarrow>
        recognize env self audio_data language online =
          map_prod id Inr (recognize_with env self audio_data language)) \<and>
     (vosk_available self \<and> language \<notin> dom (sr_models self) \<and> model_urls language = None \<longrightarrow>
        recognize env self audio_data language online =
          (if u ''en'' \<in> dom (sr_models self)
           then map_prod id Inr (recognize_with env self audio_data (u ''en''))
           else (self, Inr model_not_available))) \<and>
     (\<forall>url. vosk_available self \<and> language \<notin> dom (sr_models self) \<and>
        model_urls language = Some url \<and> makedirs env = None \<longrightarrow>
        recognize env self audio_data language online =
          (let model_path = models_dir env @ u ''/vosk-model-'' @ language;
               self1 = self\<lparr>model_paths := (model_paths self)(language \<mapsto> model_path)\<rparr>;
               fallback =
                 (if u ''en'' \<in> dom (sr_models self)
                  then map_prod id Inr (recognize_with env self1 audio_data (u ''en''))
                  else (self1, Inr model_not_available))
           in if path_exists env model_path \<or> fetch env url model_path = None
              then (case load env model_path of
                      Inl e \<Rightarrow> fallback
                    | Inr m \<Rightarrow>
                        map_prod id Inr
                          (recognize_with env
                             (self1\<lparr>sr_models := (sr_models self)(language \<mapsto> m)\<rparr>)
                             audio_data language))
              else fallback)) \<and>
     (\<forall>s l. snd (recognize_with env s audio_data l) =
        (case recognizers s l of
           Some (r, heard) \<Rightarrow>
             (case decode env (rec_model r) (heard @ [audio_data]) of
                Inl e \<Rightarrow> recognition_error
              | Inr d \<Rightarrow> answer_text d)
         | None \<Rightarrow>
             (case sr_models s l of
                None \<Rightarrow> recognition_error
              | Some m \<Rightarrow>
                  (case KaldiRecognizer env m 16000 of
                     Inl e \<Rightarrow> recognition_error
                   | Inr r \<Rightarrow>
                       (case decode env (rec_model r) [audio_data] of
                          Inl e \<Rightarrow> recognition_error
                        | Inr d \<Rightarrow> answer_text d))))) \<and>
     (snd (download_model env self language) = None \<longrightarrow>
        (\<exists>s. snd (recognize env self audio_data language online) = Inr s)) \<and>
     (makedirs env = None \<longrightarrow>
        (\<exists>s. snd (recognize env self audio_data language online) = Inr s))"
proof -
  have off: "recognize env self audio_data language online =
      recognize_offline env self audio_data language"
    using assms by (auto simp add: recognize_def)
  have a: "\<not> vosk_available self \<longrightarrow>
      recognize env self audio_data language online = (self, Inr unavailable)"
    by (simp add: off recognize_offline_def)
  have b: "vosk_available self \<and> language \<in> dom (sr_models self) \<longrightarrow>
      recognize env self audio_data language online =
        map_prod id Inr (recognize_with env self audio_data language)"
    by (simp add: off recognize_offline_def)
  have c: "vosk_available self \<and> language \<notin> dom (sr_models self) \<and>
      model_urls language = None \<longrightarrow>
        recognize env self audio_data language online =
          (if u ''en'' \<in> dom (sr_models self)
           then map_prod id Inr (recognize_with env self audio_data (u ''en''))
           else (self, Inr model_not_available))"
    by (simp add: off recognize_offline_def download_model_def)
  have d: "\<forall>url. vosk_available self \<and> language \<notin> dom (sr_models self) \<and>
        model_urls language = Some url \<and> makedirs env = None \<longrightarrow>
        recognize env self audio_data language online =
          (let model_path = models_dir env @ u ''/vosk-model-'' @ language;
               self1 = self\<lparr>model_paths := (model_paths self)(language \<mapsto> model_path)\<rparr>;
               fallback =
                 (if u ''en'' \<in> dom (sr_models self)
                  then map_prod id Inr (recognize_with env self1 audio_data (u ''en''))
                  else (self1, Inr model_not_available))
           in if path_exists env model_path \<or> fetch env url model_path = None
              then (case load env model_path of
                      Inl e \<Rightarrow> fallback
                    | Inr m \<Rightarrow>
                        map_prod id Inr
                          (recognize_with env
                             (self1\<lparr>sr_models := (sr_models self)(language \<mapsto> m)\<rparr>)
                             audio_data language))
              else fallback)"
    by (auto simp add: off recognize_offline_def download_model_def load_model_def Let_def
        split: sum.splits option.splits)
  have e: "\<forall>s l. snd (recognize_with env s audio_data l) =
        (case recognizers s l of
           Some (r, heard) \<Rightarrow>
             (case decode env (rec_model r) (heard @ [audio_data]) of
                Inl e \<Rightarrow> recognition_error
              | Inr d \<Rightarrow> answer_text d)
         | None \<Rightarrow>
             (case sr_models s l of
                None \<Rightarrow> recognition_error
              | Some m \<Rightarrow>
                  (case KaldiRecognizer env m 16000 of
                     Inl e \<Rightarrow> recognition_error
                   | Inr r \<Rightarrow>
                       (case decode env (rec_model r) [audio_data] of
                          Inl e \<Rightarrow> recognition_error
                        | Inr d \<Rightarrow> answer_text d))))"
    using recognize_with_text by blast
  have f: "snd (download_model env self language) = None \<longrightarrow>
        (\<exists>s. snd (recognize env self audio_data language online) = Inr s)"
    using recognize_offline_returns by (simp add: off)
  have g: "makedirs env = None \<longrightarrow>
        (\<exists>s. snd (recognize env self audio_data language online) = Inr s)"
    using recognize_offline_returns download_model_returns by (simp add: off)
  from a b c d e f g show ?thesis by (intro conjI)
qed

lemma english_only_facts:
  "u ''tl'' \<notin> dom (sr_models english_only)" "u ''ko'' \<notin> dom (sr_models english_only)"
  "u ''en'' \<in> dom (sr_models english_only)" "vosk_available english_only"
  "model_urls (u ''tl'') =
     Some (u ''https://alphacephei.com/vosk/models/vosk-model-small-tl-ph-0.15.zip'')"
  "model_urls (u ''ko'') =
     Some (u ''https://alphacephei.com/vosk/models/vosk-model-small-ko-0.22.zip'')"
  by (simp_all add: english_only_def model_urls_def u_eq_iff)

lemma sample_recognitions:
  "snd (recognize offline_vosk_env english_only [0, 0] (u ''tl'') True) =
     Inr (u ''vosk_models/vosk-model-en'')"
  "snd (recognize offline_vosk_env (english_only\<lparr>vosk_available := False\<rparr>) [0, 0] (u ''tl'')
     False) = Inr unavailable"
  "snd (recognize sample_vosk_env english_only [0, 0] (u ''ko'') False) =
     Inr (u ''vosk_models/vosk-model-ko'')"
  by (simp_all add: recognize_def recognize_offline_def download_model_def load_model_def
      recognize_with_def offline_vosk_env_def sample_vosk_env_def english_only_def
      sample_kaldi_def model_urls_def u_eq_iff u_append Let_def)

theorem recognize_fallbacks_witness:
  "(\<exists>e. recognize_online offline_vosk_env [0, 0] (u ''tl'') = Inl e) \<and>
   vosk_available english_only \<and> u ''tl'' \<notin> dom (sr_models english_only) \<and>
   u ''ko'' \<notin> dom (sr_models english_only) \<and>
   makedirs offline_vosk_env = None \<and> makedirs sample_vosk_env = None \<and>
   snd (recognize offline_vosk_env english_only [0, 0] (u ''tl'') True) =
     Inr (u ''vosk_models/vosk-model-en'') \<and>
   snd (recognize offline_vosk_env (english_only\<lparr>vosk_available := False\<rparr>) [0, 0] (u ''tl'')
     False) = Inr unavailable \<and>
   snd (recognize sample_vosk_env english_only [0, 0] (u ''ko'') False) =
     Inr (u ''vosk_models/vosk-model-ko'')"
  using recognize_fallbacks [of True offline_vosk_env "[0, 0]" "u ''tl''" english_only]
    recognize_fallbacks [of False offline_vosk_env "[0, 0]" "u ''tl''"
      "english_only\<lparr>vosk_available := False\<rparr>"]
    recognize_fallbacks [of False sample_vosk_env "[0, 0]" "u ''ko''" english_only]
    english_only_facts sample_recognitions
  by (simp add: offline_vosk_env_def sample_vosk_env_def)

text \<open>
  C10 as stated fails: with only the English model loaded and a Tagalog model on disk, a
  request for Tagalog is answered by the Tagalog model, loaded on demand, and not by the
  English one.
\<close>

theorem recognize_fallbacks_counterexample:
  "u ''tl'' \<notin> dom (sr_models english_only) \<and> u ''en'' \<in> dom (sr_models english_only) \<and>
   snd (recognize sample_vosk_env english_only [0, 0] (u ''tl'') False) =
     Inr (u ''vosk_models/vosk-model-tl'') \<and>
   snd (recognize_with sample_vosk_env english_only [0, 0] (u ''en'')) =
     u ''vosk_models/vosk-model-en''"
  by (simp add: recognize_def recognize_offline_def download_model_def load_model_def
      recognize_with_def sample_vosk_env_def english_only_def sample_kaldi_def model_urls_def
      u_eq_iff u_append Let_def)

text \<open>
  Outside the amended statement: when creating the models directory fails, the exception
  leaves \<^verbatim>\<open>recognize\<close>.
\<close>

lemma recognize_makedirs_raises:
  "snd (recognize (sample_vosk_env\<lparr>makedirs := Some (Exn (u ''PermissionError''))\<rparr>)
          english_only [0, 0] (u ''tl'') False) = Inl (Exn (u ''PermissionError''))"
  by (simp add: recognize_def recognize_offline_def download_model_def
      sample_vosk_env_def english_only_def model_urls_def u_eq_iff)


end
